theory Spec2Isabelle
  imports Main "HOL-Library.AList" "HOL-Library.List_Lexorder" "HOL-Library.Word"
begin

section \<open>The document object model\<close>

text \<open>
  The scripts work on the tree that the XML parser of the Python standard library
  (\<^verbatim>\<open>xml.dom.minidom\<close>) builds for a part.  A node is an element with a tag name,
  an ordered attribute list and ordered child nodes, or a character-data node (text or
  comment).  An element's \<^verbatim>\<open>nodeValue\<close> is \<^verbatim>\<open>None\<close>; a character-data node's
  \<^verbatim>\<open>nodeValue\<close> is its data.  A CDATA section is a text node in minidom, and a
  processing instruction has its data as \<^verbatim>\<open>nodeValue\<close> like a comment.
\<close>

datatype xml =
    Element string "(string \<times> string) list" "xml list"
  | Text string
  | Comment string

fun tagName :: "xml \<Rightarrow> string option" where
  "tagName (Element t _ _) = Some t"
| "tagName _ = None"


fun childNodes :: "xml \<Rightarrow> xml list" where
  "childNodes (Element _ _ cs) = cs"
| "childNodes _ = []"

fun nodeValue :: "xml \<Rightarrow> string option" where
  "nodeValue (Element _ _ _) = None"
| "nodeValue (Text s) = Some s"
| "nodeValue (Comment s) = Some s"

fun firstChild :: "xml \<Rightarrow> xml option" where
  "firstChild (Element _ _ (c # _)) = Some c"
| "firstChild _ = None"

text \<open>
  A Python node object has an identity besides its content.  The identity of a node is
  modelled by its position: the list of child indices leading to it from the document
  node, whose only child (index 0) is the document element.
\<close>

type_synonym node = "nat list"

fun node_at :: "xml list \<Rightarrow> node \<Rightarrow> xml option" where
  "node_at cs [] = None"
| "node_at cs [i] = (if i < length cs then Some (cs ! i) else None)"
| "node_at cs (i # j # p) =
     (if i < length cs then node_at (childNodes (cs ! i)) (j # p) else None)"

text \<open>
  \<^verbatim>\<open>getElementsByTagName\<close> of minidom:
  \<^verbatim>\<open>
  def _get_elements_by_tagName_helper(parent, name, rc):
      for node in parent.childNodes:
          if node.nodeType == Node.ELEMENT_NODE and \
              (name == "*" or node.tagName == name):
              rc.append(node)
          _get_elements_by_tagName_helper(node, name, rc)
      return rc
  \<close>
  The model returns every collected node as its position (relative to the parent) together
  with its subtree.  \<open>elements_from name i cs\<close> runs the loop over the children \<open>cs\<close>,
  the first of which has index \<open>i\<close>.
\<close>

fun tag_matches :: "string \<Rightarrow> xml \<Rightarrow> bool" where
  "tag_matches name (Element t _ _) = (name = ''*'' \<or> t = name)"
| "tag_matches name _ = False"

fun get_elements_by_tagName_helper :: "xml \<Rightarrow> string \<Rightarrow> (node \<times> xml) list"
  and elements_from :: "string \<Rightarrow> nat \<Rightarrow> xml list \<Rightarrow> (node \<times> xml) list" where
  "get_elements_by_tagName_helper (Element t a cs) name = elements_from name 0 cs"
| "get_elements_by_tagName_helper (Text s) name = []"
| "get_elements_by_tagName_helper (Comment s) name = []"
| "elements_from name i [] = []"
| "elements_from name i (c # cs) =
     (if tag_matches name c then [([i], c)] else []) @
     map (\<lambda>(p, e). (i # p, e)) (get_elements_by_tagName_helper c name) @
     elements_from name (Suc i) cs"

text \<open>A parsed part: the document node with the document element as its only child.\<close>

definition getElementsByTagName :: "xml \<Rightarrow> string \<Rightarrow> (node \<times> xml) list" where
  "getElementsByTagName root name = elements_from name 0 [root]"

text \<open>
  \<^verbatim>\<open>hasAttribute\<close> and \<^verbatim>\<open>setAttribute\<close> of an element.  minidom keeps the attributes
  in a dictionary in insertion order: setting an attribute that exists replaces its value
  in place, setting a new one appends it.
\<close>

fun hasAttribute :: "xml \<Rightarrow> string \<Rightarrow> bool" where
  "hasAttribute (Element _ a _) name = (map_of a name \<noteq> None)"
| "hasAttribute _ name = False"

fun setAttribute :: "xml \<Rightarrow> string \<Rightarrow> string \<Rightarrow> xml" where
  "setAttribute (Element t a cs) name v = Element t (AList.update name v a) cs"
| "setAttribute n name v = n"

section \<open>Python values used by the scripts\<close>

subsection \<open>Strings\<close>

text \<open>
  \<^verbatim>\<open>str.strip()\<close> removes leading and trailing whitespace.  The whitespace characters
  of Python among the code points below 256.
\<close>

definition isspace :: "char \<Rightarrow> bool" where
  "isspace c = (let n = of_char c :: nat in
     (9 \<le> n \<and> n \<le> 13) \<or> (28 \<le> n \<and> n \<le> 32) \<or> n = 133 \<or> n = 160)"

definition strip :: "string \<Rightarrow> string" where
  "strip s = rev (dropWhile isspace (rev (dropWhile isspace s)))"

text \<open>\<^verbatim>\<open>str(n)\<close> of an integer, as an f-string formats it.\<close>

definition digit_char :: "nat \<Rightarrow> char" where
  "digit_char d = ''0123456789'' ! d"

function str_nat :: "nat \<Rightarrow> string" where
  "str_nat n = (if n < 10 then [digit_char n] else str_nat (n div 10) @ [digit_char (n mod 10)])"
  by pat_completeness auto
termination
  by (relation "measure id") auto

declare str_nat.simps [simp del]

definition str_int :: "int \<Rightarrow> string" where
  "str_int i = (if i < 0 then CHR ''-'' # str_nat (nat (- i)) else str_nat (nat i))"

text \<open>
  \<^verbatim>\<open>f"{r:04X}"\<close> for \<^verbatim>\<open>r = random.randint(0, 0xFFFF)\<close>: four upper-case hexadecimal
  digits.  The drawn number is a 16-bit word.
\<close>

definition hex_char :: "nat \<Rightarrow> char" where
  "hex_char d = ''0123456789ABCDEF'' ! d"

definition format_04X :: "16 word \<Rightarrow> string" where
  "format_04X r = (let n = unat r in
     [hex_char (n div 4096), hex_char (n div 256 mod 16), hex_char (n div 16 mod 16),
      hex_char (n mod 16)])"

text \<open>\<^verbatim>\<open>", ".join(xs)\<close> of a list of strings.\<close>

fun join :: "string \<Rightarrow> string list \<Rightarrow> string" where
  "join sep [] = []"
| "join sep [x] = x"
| "join sep (x # y # ys) = x @ sep @ join sep (y # ys)"

subsection \<open>Exceptions\<close>

text \<open>
  An exception is a class and the message \<^verbatim>\<open>str(e)\<close>.  The classes are those of the
  error taxonomy, and \<^verbatim>\<open>TypeError\<close>, which \<^verbatim>\<open>"".join\<close> raises on an item that is
  \<^verbatim>\<open>None\<close>.
\<close>

datatype exception_class =
    ArchiveCorrupt | MissingContentTypes | PartNotFound | MalformedXml | InvalidRange
  | LocationNotFound | IoFailure | TypeError

datatype error = Raised exception_class string

fun str_error :: "error \<Rightarrow> string" where
  "str_error (Raised _ msg) = msg"

text \<open>
  \<^verbatim>\<open>"".join(values)\<close> where a value may be \<^verbatim>\<open>None\<close>: the first \<^verbatim>\<open>None\<close>, at index
  \<open>k\<close>, raises \<^verbatim>\<open>TypeError\<close>.
\<close>

fun join_values :: "nat \<Rightarrow> string option list \<Rightarrow> error + string" where
  "join_values k [] = Inr []"
| "join_values k (None # vs) =
     Inl (Raised TypeError
       (''sequence item '' @ str_nat k @ '': expected str instance, NoneType found''))"
| "join_values k (Some v # vs) =
     (case join_values (Suc k) vs of Inl e \<Rightarrow> Inl e | Inr s \<Rightarrow> Inr (v @ s))"

subsection \<open>JSON results\<close>

datatype json =
    JBool bool
  | JInt int
  | JStr string
  | JList "json list"
  | JObject "(string \<times> json) list"

text \<open>\<^verbatim>\<open>d.get(key)\<close> on a result object, and the truth value of a Python value.\<close>

fun json_get :: "json \<Rightarrow> string \<Rightarrow> json option" where
  "json_get (JObject kvs) key = map_of kvs key"
| "json_get _ key = None"

fun truthy :: "json \<Rightarrow> bool" where
  "truthy (JBool b) = b"
| "truthy (JInt i) = (i \<noteq> 0)"
| "truthy (JStr s) = (s \<noteq> [])"
| "truthy (JList xs) = (xs \<noteq> [])"
| "truthy (JObject kvs) = (kvs \<noteq> [])"

section \<open>The collaborators of the scripts\<close>

text \<open>
  \<^verbatim>\<open>word_ops.py\<close> and \<^verbatim>\<open>word_cli.py\<close> call the part registry (\<^verbatim>\<open>document.Document\<close>
  and its editors), the archive codec (\<^verbatim>\<open>ooxml.scripts.unpack\<close>, \<^verbatim>\<open>ooxml.scripts.pack\<close>)
  and the schema validator (\<^verbatim>\<open>ooxml.scripts.validation.docx\<close>).  Their code is taken as
  a parameter: a record of functions, each returning the exception it raises (\<open>Inl\<close>) or
  its result (\<open>Inr\<close>).

  The file system maps the path of an archive to its bytes; an unpacked directory maps the
  relative path of a part to its bytes.  \<open>'d\<close> is the state of a \<^verbatim>\<open>Document\<close> object.
  An absent optional argument of the constructor is \<open>None\<close>.  The temporary directory
  of an operation is a value of the operation: it is gone when the operation ends.
  \<open>unpack_document\<close> reads the file system and gives the directory it fills; the
  registry works on that directory and its own state; only \<open>pack_document\<close> gives bytes
  for the archive, which the operation then writes at \<^verbatim>\<open>docx_path\<close>.
\<close>

type_synonym files = "string \<rightharpoonup> string"
type_synonym directory = "string \<rightharpoonup> string"

record validation_result =
  valid :: bool
  errors :: "string list"
  warnings :: "string list option"

record 'd collaborators =
  unpack_document :: "files \<Rightarrow> string \<Rightarrow> error + directory"
  Document :: "directory \<Rightarrow> string option \<Rightarrow> string option \<Rightarrow> error + 'd"
  getitem :: "'d \<Rightarrow> string \<Rightarrow> error + 'd \<times> xml"
  get :: "'d \<Rightarrow> string \<Rightarrow> error + 'd \<times> xml"
  set_dom :: "'d \<Rightarrow> string \<Rightarrow> xml \<Rightarrow> 'd"
  get_node :: "xml \<Rightarrow> string \<Rightarrow> int \<Rightarrow> error + node option"
  doc_add_comment :: "'d \<Rightarrow> node \<Rightarrow> node \<Rightarrow> string \<Rightarrow> error + 'd"
  editor_suggest_insertion :: "'d \<Rightarrow> node \<Rightarrow> string \<Rightarrow> error + 'd"
  editor_suggest_deletion :: "'d \<Rightarrow> node \<Rightarrow> error + 'd"
  save :: "'d \<Rightarrow> error + directory"
  pack_document :: "directory \<Rightarrow> error + string"
  validator_validate :: "directory \<Rightarrow> error + validation_result"

text \<open>
  \<open>getitem\<close> is \<^verbatim>\<open>doc[path]\<close> and \<open>get\<close> is \<^verbatim>\<open>doc.get(path)\<close>: both give the editor of
  a part, of which the scripts use the tree \<^verbatim>\<open>.dom\<close>, here its document element.  The
  tree is shared with the \<^verbatim>\<open>Document\<close>: \<open>set_dom\<close> is the \<^verbatim>\<open>Document\<close> after the script has
  changed the tree of a part in place.  \<open>pack_document\<close> gives the bytes it writes to the
  archive; when it raises, the archive is as it was (the specification has it write a
  temporary file and rename it).
\<close>

subsection \<open>Calls and their order\<close>

text \<open>
  An operation returns the calls it made to its collaborators, in order, and either the
  exception that escapes from it or its result object with the file system it leaves.
  \<open>step c r k\<close> makes the call \<open>c\<close> whose outcome is \<open>r\<close>: an exception ends the
  operation, a result is passed on to the rest \<open>k\<close> of the operation.
\<close>

datatype call =
    Unpack string
  | NewDocument
  | GetItem string
  | GetNode string int
  | AddComment node node string
  | SuggestInsertion node string
  | SuggestDeletion node
  | Save
  | Pack string
  | Validate

type_synonym 'a outcome = "call list \<times> (error + 'a)"

definition step :: "call \<Rightarrow> error + 'a \<Rightarrow> ('a \<Rightarrow> 'b outcome) \<Rightarrow> 'b outcome" where
  "step c r k =
     (case r of
        Inl e \<Rightarrow> ([c], Inl e)
      | Inr x \<Rightarrow> (case k x of (cs, y) \<Rightarrow> (c # cs, y)))"

definition returns :: "'a \<Rightarrow> 'a outcome" where
  "returns x = ([], Inr x)"

section \<open>\<^verbatim>\<open>word_ops.py\<close>\<close>

definition add_comment ::
  "'d collaborators \<Rightarrow> files \<Rightarrow> string \<Rightarrow> int \<Rightarrow> string \<Rightarrow> string \<Rightarrow> (json \<times> files) outcome" where
  "add_comment env fs docx_path location text author =
     step (Unpack docx_path) (unpack_document env fs docx_path) (\<lambda>unpack_dir.
     step NewDocument (Document env unpack_dir (Some author) None) (\<lambda>doc.
     step (GetItem ''word/document.xml'') (getitem env doc ''word/document.xml'') (\<lambda>(doc, dom).
     step (GetNode ''w:p'' location) (get_node env dom ''w:p'' location) (\<lambda>node.
     let node =
       (if node = None then
          let paragraphs = getElementsByTagName dom ''w:p'' in
          if 0 \<le> location \<and> location < int (length paragraphs)
          then Some (fst (paragraphs ! nat location)) else node
        else node)
     in
     case node of
       None \<Rightarrow>
         returns (JObject [
           (''success'', JBool False),
           (''error'', JStr (''Could not find paragraph at location '' @ str_int location))], fs)
     | Some node \<Rightarrow>
         step (AddComment node node text) (doc_add_comment env doc node node text) (\<lambda>doc.
         step Save (save env doc) (\<lambda>unpack_dir.
         step (Pack docx_path) (pack_document env unpack_dir) (\<lambda>archive.
         returns (JObject [
           (''success'', JBool True),
           (''message'', JStr (''Comment added at location '' @ str_int location)),
           (''location'', JInt location),
           (''text'', JStr text),
           (''author'', JStr author)], fs(docx_path \<mapsto> archive)))))))))"

definition enable_tracking ::
  "'d collaborators \<Rightarrow> 16 word \<Rightarrow> files \<Rightarrow> string \<Rightarrow> string \<Rightarrow> string \<Rightarrow> (json \<times> files) outcome" where
  "enable_tracking env random fs docx_path author initials =
     step (Unpack docx_path) (unpack_document env fs docx_path) (\<lambda>unpack_dir.
     step NewDocument (Document env unpack_dir (Some author) (Some initials)) (\<lambda>doc.
     step (GetItem ''word/document.xml'') (getitem env doc ''word/document.xml'') (\<lambda>(doc, root).
     let root =
       (if \<not> hasAttribute root ''w:rsidRDefault''
        then let rsid = format_04X random in setAttribute root ''w:rsidRDefault'' rsid
        else root);
       doc = set_dom env doc ''word/document.xml'' root
     in
     step Save (save env doc) (\<lambda>unpack_dir.
     step (Pack docx_path) (pack_document env unpack_dir) (\<lambda>archive.
     returns (JObject [
       (''success'', JBool True),
       (''message'', JStr ''Revision tracking enabled''),
       (''author'', JStr author),
       (''initials'', JStr initials)], fs(docx_path \<mapsto> archive)))))))"

definition suggest_insertion ::
  "'d collaborators \<Rightarrow> files \<Rightarrow> string \<Rightarrow> int \<Rightarrow> string \<Rightarrow> string \<Rightarrow> (json \<times> files) outcome" where
  "suggest_insertion env fs docx_path location text author =
     step (Unpack docx_path) (unpack_document env fs docx_path) (\<lambda>unpack_dir.
     step NewDocument (Document env unpack_dir (Some author) None) (\<lambda>doc.
     step (GetItem ''word/document.xml'') (getitem env doc ''word/document.xml'') (\<lambda>(doc, dom).
     step (GetNode ''w:p'' location) (get_node env dom ''w:p'' location) (\<lambda>node.
     let node =
       (if node = None then
          let paragraphs = getElementsByTagName dom ''w:p'' in
          if 0 \<le> location \<and> location < int (length paragraphs)
          then Some (fst (paragraphs ! nat location)) else node
        else node)
     in
     case node of
       None \<Rightarrow>
         returns (JObject [
           (''success'', JBool False),
           (''error'', JStr (''Could not find paragraph at location '' @ str_int location))], fs)
     | Some node \<Rightarrow>
         step (SuggestInsertion node text) (editor_suggest_insertion env doc node text) (\<lambda>doc.
         step Save (save env doc) (\<lambda>unpack_dir.
         step (Pack docx_path) (pack_document env unpack_dir) (\<lambda>archive.
         returns (JObject [
           (''success'', JBool True),
           (''message'', JStr (''Insertion suggested at location '' @ str_int location)),
           (''location'', JInt location),
           (''text'', JStr text)], fs(docx_path \<mapsto> archive)))))))))"

definition suggest_deletion ::
  "'d collaborators \<Rightarrow> files \<Rightarrow> string \<Rightarrow> int \<Rightarrow> string \<Rightarrow> (json \<times> files) outcome" where
  "suggest_deletion env fs docx_path location author =
     step (Unpack docx_path) (unpack_document env fs docx_path) (\<lambda>unpack_dir.
     step NewDocument (Document env unpack_dir (Some author) None) (\<lambda>doc.
     step (GetItem ''word/document.xml'') (getitem env doc ''word/document.xml'') (\<lambda>(doc, dom).
     step (GetNode ''w:p'' location) (get_node env dom ''w:p'' location) (\<lambda>node.
     let node =
       (if node = None then
          let paragraphs = getElementsByTagName dom ''w:p'' in
          if 0 \<le> location \<and> location < int (length paragraphs)
          then Some (fst (paragraphs ! nat location)) else node
        else node)
     in
     case node of
       None \<Rightarrow>
         returns (JObject [
           (''success'', JBool False),
           (''error'', JStr (''Could not find paragraph at location '' @ str_int location))], fs)
     | Some node \<Rightarrow>
         step (SuggestDeletion node) (editor_suggest_deletion env doc node) (\<lambda>doc.
         step Save (save env doc) (\<lambda>unpack_dir.
         step (Pack docx_path) (pack_document env unpack_dir) (\<lambda>archive.
         returns (JObject [
           (''success'', JBool True),
           (''message'', JStr (''Deletion suggested at location '' @ str_int location)),
           (''location'', JInt location)], fs(docx_path \<mapsto> archive)))))))))"

definition validate_document :: "'d collaborators \<Rightarrow> files \<Rightarrow> string \<Rightarrow> (json \<times> files) outcome" where
  "validate_document env fs docx_path =
     step (Unpack docx_path) (unpack_document env fs docx_path) (\<lambda>unpack_dir.
     step Validate (validator_validate env unpack_dir) (\<lambda>result.
     returns (JObject [
       (''success'', JBool (valid result)),
       (''valid'', JBool (valid result)),
       (''errors'', JList (map JStr (errors result))),
       (''warnings'', JList (map JStr
          (case warnings result of Some ws \<Rightarrow> ws | None \<Rightarrow> [])))], fs)))"

text \<open>
  \<^verbatim>\<open>main\<close>: the parsed command line (without a command \<^verbatim>\<open>main\<close> prints the help
  and exits with status 1), the dispatch, the printed result and the exit status.  A
  process ends with what it printed as JSON, its exit status, the exception that
  escaped from it (Python then prints a traceback and the status is 1); \<open>main\<close> gives
  the file system it leaves as well.
\<close>

datatype args =
    NoCommand
  | AddCommentArgs string int string string
  | EnableTrackingArgs string string string
  | SuggestInsertionArgs string int string string
  | SuggestDeletionArgs string int string
  | ValidateArgs string

record process =
  printed :: "json option"
  exit_status :: int
  uncaught :: "error option"

text \<open>
  The end of \<^verbatim>\<open>main\<close>: an exception of the operation escapes; a result is printed
  and decides the exit status,
  \<^verbatim>\<open>if result and not result.get("success", True): sys.exit(1)\<close>.
\<close>

definition report :: "(json \<times> files) outcome \<Rightarrow> files \<Rightarrow> process \<times> files" where
  "report outcome fs =
     (case snd outcome of
        Inl e \<Rightarrow>
          (\<lparr>printed = None, exit_status = 1, uncaught = Some e\<rparr>, fs)
      | Inr (result, fs') \<Rightarrow>
          (\<lparr>printed = Some result,
            exit_status =
              (if truthy result \<and>
                  \<not> truthy (case json_get result ''success'' of
                              Some v \<Rightarrow> v | None \<Rightarrow> JBool True)
               then 1 else 0),
            uncaught = None\<rparr>, fs'))"

definition main :: "'d collaborators \<Rightarrow> 16 word \<Rightarrow> files \<Rightarrow> args \<Rightarrow> process \<times> files" where
  "main env random fs a =
     (case a of
        NoCommand \<Rightarrow>
          (\<lparr>printed = None, exit_status = 1, uncaught = None\<rparr>, fs)
      | AddCommentArgs docx_path location text author \<Rightarrow>
          report (add_comment env fs docx_path location text author) fs
      | EnableTrackingArgs docx_path author initials \<Rightarrow>
          report (enable_tracking env random fs docx_path author initials) fs
      | SuggestInsertionArgs docx_path location text author \<Rightarrow>
          report (suggest_insertion env fs docx_path location text author) fs
      | SuggestDeletionArgs docx_path location author \<Rightarrow>
          report (suggest_deletion env fs docx_path location author) fs
      | ValidateArgs docx_path \<Rightarrow>
          report (validate_document env fs docx_path) fs)"

section \<open>\<^verbatim>\<open>word_cli.py\<close>\<close>

text \<open>
  \<^verbatim>\<open>try: ... except Exception as e: ...\<close>: the handler gets the exception the body
  raises.
\<close>

definition try_except :: "error + 'a \<Rightarrow> (error \<Rightarrow> 'a) \<Rightarrow> 'a" where
  "try_except body handler = (case body of Inl e \<Rightarrow> handler e | Inr x \<Rightarrow> x)"

text \<open>
  The loop of \<^verbatim>\<open>read_document\<close> over \<^verbatim>\<open>enumerate(paragraphs)\<close>.  The text of a
  paragraph joins, over its \<^verbatim>\<open>w:t\<close> descendants that have a first child, the
  \<^verbatim>\<open>nodeValue\<close> of that child.
\<close>

definition text_of_paragraph :: "xml \<Rightarrow> error + string" where
  "text_of_paragraph p =
     (let text_nodes = map snd (get_elements_by_tagName_helper p ''w:t'') in
      join_values 0
        (List.map_filter (\<lambda>n. map_option nodeValue (firstChild n)) text_nodes))"

fun read_paragraphs :: "(nat \<times> xml) list \<Rightarrow> error + json list" where
  "read_paragraphs [] = Inr []"
| "read_paragraphs ((i, p) # rest) =
     (case text_of_paragraph p of
        Inl e \<Rightarrow> Inl e
      | Inr paragraph_text \<Rightarrow>
          (case read_paragraphs rest of
             Inl e \<Rightarrow> Inl e
           | Inr content \<Rightarrow>
               if strip paragraph_text \<noteq> []
               then Inr (JObject [(''index'', JInt (int i)),
                                  (''text'', JStr (strip paragraph_text))] # content)
               else Inr content))"

text \<open>
  \<^verbatim>\<open>read_document\<close> and \<^verbatim>\<open>validate_document\<close> of \<^verbatim>\<open>word_cli.py\<close> return the text
  \<^verbatim>\<open>json.dumps\<close> makes of a result object; the model returns the object.  Their argument is
  the unpacked directory.
\<close>

definition read_document :: "'d collaborators \<Rightarrow> directory \<Rightarrow> json" where
  "read_document env unpacked_dir =
     try_except
       (case Document env unpacked_dir None None of
          Inl e \<Rightarrow> Inl e
        | Inr doc \<Rightarrow>
            (case get env doc ''word/document.xml'' of
               Inl e \<Rightarrow> Inl e
             | Inr (doc, document_xml) \<Rightarrow>
                 let paragraphs = map snd (getElementsByTagName document_xml ''w:p'') in
                 (case read_paragraphs (enumerate 0 paragraphs) of
                    Inl e \<Rightarrow> Inl e
                  | Inr content \<Rightarrow>
                      Inr (JObject [(''success'', JBool True),
                                    (''content'', JList content)]))))
       (\<lambda>e. JObject [(''success'', JBool False), (''error'', JStr (str_error e))])"

definition validate_document_cli :: "'d collaborators \<Rightarrow> directory \<Rightarrow> json" where
  "validate_document_cli env unpacked_dir =
     try_except
       (case Document env unpacked_dir None None of
          Inl e \<Rightarrow> Inl e
        | Inr doc \<Rightarrow>
            let required_files = [''word/document.xml'', ''[Content_Types].xml''];
                missing_files = filter (\<lambda>file. unpacked_dir file = None) required_files
            in
            if missing_files \<noteq> [] then
              Inr (JObject [
                (''success'', JBool False),
                (''valid'', JBool False),
                (''errors'', JList [JStr (''Missing required files: '' @
                                            join '', '' missing_files)])])
            else
              Inr (JObject [
                (''success'', JBool True),
                (''valid'', JBool True),
                (''errors'', JList []),
                (''warnings'', JList [])]))
       (\<lambda>e. JObject [
          (''success'', JBool False),
          (''valid'', JBool False),
          (''errors'', JList [JStr (str_error e)])])"



section \<open>A concrete environment\<close>

text \<open>
  A small instance of the collaborators, on which the operations can be run.  An archive
  holds the body part only and unpacks to the body part and a content-types declaration.
  The XML parser knows the documents of a table: the text of a part and the tree it parses
  to; any other text is malformed.  The state of a \<^verbatim>\<open>Document\<close> is the unpacked directory
  and the tree of the body part once it is loaded; as the specification says of opening
  the registry, the constructor parses no part.  There is no line metadata, so the
  line-based lookup finds no node.  The edits leave the tree as it is.
\<close>

definition hello_text :: string where
  "hello_text = ''<w:document><w:body><w:p><w:r><w:t>Hello</w:t></w:r></w:p><w:p><w:r><w:t>  </w:t></w:r></w:p><w:p><w:r><w:t> World </w:t></w:r></w:p></w:body></w:document>''"

definition hello_dom :: xml where
  "hello_dom =
     Element ''w:document'' [] [Element ''w:body'' [] [
       Element ''w:p'' [] [Element ''w:r'' [] [Element ''w:t'' [] [Text ''Hello'']]],
       Element ''w:p'' [] [Element ''w:r'' [] [Element ''w:t'' [] [Text ''  '']]],
       Element ''w:p'' [] [Element ''w:r'' [] [Element ''w:t'' [] [Text '' World '']]]]]"

definition tracked_text :: string where
  \<open>tracked_text = ''<w:document w:rsidRDefault="00FF"><w:body><w:p><w:r><w:t>Hello</w:t></w:r></w:p><w:p><w:r><w:t>  </w:t></w:r></w:p><w:p><w:r><w:t> World </w:t></w:r></w:p></w:body></w:document>''\<close>

definition tracked_dom :: xml where
  "tracked_dom =
     Element ''w:document'' [(''w:rsidRDefault'', ''00FF'')] [Element ''w:body'' [] [
       Element ''w:p'' [] [Element ''w:r'' [] [Element ''w:t'' [] [Text ''Hello'']]],
       Element ''w:p'' [] [Element ''w:r'' [] [Element ''w:t'' [] [Text ''  '']]],
       Element ''w:p'' [] [Element ''w:r'' [] [Element ''w:t'' [] [Text '' World '']]]]]"

definition break_text :: string where
  "break_text = ''<w:document><w:body><w:p><w:r><w:t>Hello</w:t></w:r></w:p><w:p><w:r><w:t><w:br/></w:t></w:r></w:p></w:body></w:document>''"

definition break_dom :: xml where
  "break_dom =
     Element ''w:document'' [] [Element ''w:body'' [] [
       Element ''w:p'' [] [Element ''w:r'' [] [Element ''w:t'' [] [Text ''Hello'']]],
       Element ''w:p'' [] [Element ''w:r'' [] [Element ''w:t'' [] [Element ''w:br'' [] []]]]]]"

definition known_parts :: "(string \<times> xml) list" where
  "known_parts = [(hello_text, hello_dom), (tracked_text, tracked_dom), (break_text, break_dom)]"

definition parse_part :: "string \<Rightarrow> error + xml" where
  "parse_part s =
     (case map_of known_parts s of
        None \<Rightarrow> Inl (Raised MalformedXml ''not well-formed (invalid token)'')
      | Some t \<Rightarrow> Inr t)"

definition write_part :: "xml \<Rightarrow> error + string" where
  "write_part t =
     (case map_of (map (\<lambda>(s, t). (t, s)) known_parts) t of
        None \<Rightarrow> Inl (Raised IoFailure ''cannot write part'')
      | Some s \<Rightarrow> Inr s)"

type_synonym registry = "directory \<times> xml option"

definition registry_get :: "registry \<Rightarrow> string \<Rightarrow> error + registry \<times> xml" where
  "registry_get d path =
     (case snd d of
        Some t \<Rightarrow>
          (if path = ''word/document.xml'' then Inr (d, t)
           else Inl (Raised PartNotFound path))
      | None \<Rightarrow>
          (if path \<noteq> ''word/document.xml'' then Inl (Raised PartNotFound path)
           else case fst d path of
             None \<Rightarrow> Inl (Raised PartNotFound path)
           | Some bytes \<Rightarrow>
               (case parse_part bytes of
                  Inl e \<Rightarrow> Inl e
                | Inr t \<Rightarrow> Inr ((fst d, Some t), t))))"

definition registry_save :: "registry \<Rightarrow> error + directory" where
  "registry_save d =
     (case snd d of
        None \<Rightarrow> Inr (fst d)
      | Some t \<Rightarrow>
          (case write_part t of
             Inl e \<Rightarrow> Inl e
           | Inr bytes \<Rightarrow> Inr ((fst d)(''word/document.xml'' \<mapsto> bytes))))"

definition archive_unpack :: "files \<Rightarrow> string \<Rightarrow> error + directory" where
  "archive_unpack fs path =
     (case fs path of
        None \<Rightarrow> Inl (Raised ArchiveCorrupt ''cannot open archive'')
      | Some bytes \<Rightarrow>
          Inr [''[Content_Types].xml'' \<mapsto> ''<Types/>'', ''word/document.xml'' \<mapsto> bytes])"

definition archive_pack :: "directory \<Rightarrow> error + string" where
  "archive_pack dir =
     (case dir ''[Content_Types].xml'' of
        None \<Rightarrow> Inl (Raised MissingContentTypes ''[Content_Types].xml'')
      | Some _ \<Rightarrow>
          (case dir ''word/document.xml'' of
             None \<Rightarrow> Inl (Raised PartNotFound ''word/document.xml'')
           | Some bytes \<Rightarrow> Inr bytes))"

definition schema_validate :: "directory \<Rightarrow> error + validation_result" where
  "schema_validate dir =
     (let problems =
        map (\<lambda>file. ''missing part: '' @ file)
          (filter (\<lambda>file. dir file = None) [''[Content_Types].xml'', ''word/document.xml'']) @
        (case dir ''word/document.xml'' of
           None \<Rightarrow> []
         | Some bytes \<Rightarrow>
             (case parse_part bytes of
                Inl e \<Rightarrow> [''word/document.xml: '' @ str_error e]
              | Inr t \<Rightarrow> []))
      in Inr \<lparr>valid = (problems = []), errors = problems, warnings = None\<rparr>)"

definition small_env :: "registry collaborators" where
  "small_env = \<lparr>
     unpack_document = archive_unpack,
     Document = (\<lambda>dir author initials. Inr (dir, None)),
     getitem = registry_get,
     get = registry_get,
     set_dom = (\<lambda>d path t. (fst d, Some t)),
     get_node = (\<lambda>t tag line. Inr None),
     doc_add_comment = (\<lambda>d start end text. Inr d),
     editor_suggest_insertion = (\<lambda>d n text. Inr d),
     editor_suggest_deletion = (\<lambda>d n. Inr d),
     save = registry_save,
     pack_document = archive_pack,
     validator_validate = schema_validate\<rparr>"

definition small_files :: files where
  "small_files = [''report.docx'' \<mapsto> hello_text]"

section \<open>Parts of the revision engine, from the specification\<close>

text \<open>
  Modelled from the spec: \<^verbatim>\<open>Document.add_comment\<close> is not among the sources.  The
  specification has \<^verbatim>\<open>addComment\<close> fail with \<^verbatim>\<open>InvalidRange\<close> if the end node does not
  follow the start node in document order.  Its scenario A comments one paragraph, with
  that paragraph as start node and as end node, so a range of one node is valid: the
  failure is that of an end node that comes before the start node.
\<close>

definition range_check :: "node \<Rightarrow> node \<Rightarrow> error + unit" where
  "range_check start finish =
     (if finish < start then Inl (Raised InvalidRange ''end node precedes start node'')
      else Inr ())"

section \<open>The content \<^verbatim>\<open>read_document\<close> is to report\<close>

text \<open>
  The statement about \<^verbatim>\<open>read_document\<close> in its own terms, to compare with the loop: the
  text of a paragraph is the character data that its \<^verbatim>\<open>w:t\<close> descendants start with, in
  document order; the content has an entry, with the index among all \<^verbatim>\<open>w:p\<close> elements
  and the stripped text, for the paragraphs whose stripped text is not empty.  A
  \<^verbatim>\<open>w:t\<close> is plain when its first child, if it has one, is character data and not an
  element.
\<close>

fun leading_data :: "xml \<Rightarrow> string" where
  "leading_data (Element _ _ (Text s # _)) = s"
| "leading_data (Element _ _ (Comment s # _)) = s"
| "leading_data _ = []"

fun plain :: "xml \<Rightarrow> bool" where
  "plain (Element _ _ (Element _ _ _ # _)) = False"
| "plain _ = True"

definition stated_text :: "xml \<Rightarrow> string" where
  "stated_text p = concat (map leading_data (map snd (get_elements_by_tagName_helper p ''w:t'')))"

definition plain_paragraph :: "xml \<Rightarrow> bool" where
  "plain_paragraph p = list_all plain (map snd (get_elements_by_tagName_helper p ''w:t''))"

definition stated_content :: "xml \<Rightarrow> json list" where
  "stated_content body =
     [JObject [(''index'', JInt (int i)), (''text'', JStr (strip (stated_text p)))].
        (i, p) \<leftarrow> enumerate 0 (map snd (getElementsByTagName body ''w:p'')),
        strip (stated_text p) \<noteq> []]"

section \<open>Tracked deletion and well-formed parts\<close>

text \<open>
  Modelled from the spec: the editor method \<^verbatim>\<open>suggest_deletion\<close> of \<^verbatim>\<open>document.py\<close> is
  not among the sources.  The specification has \<^verbatim>\<open>suggestDeletion\<close> wrap the content of
  the node in a deletion-tracking element, convert the visible text runs into deleted-text
  markup, and tag the element with the author and a fresh revision identifier; it never
  removes the node.  In WordprocessingML the deletion-tracking element is \<^verbatim>\<open>w:del\<close> and
  the deleted text of a run is \<^verbatim>\<open>w:delText\<close> in place of \<^verbatim>\<open>w:t\<close>.
\<close>

fun deleted_markup :: "xml \<Rightarrow> xml"
  and deleted_markups :: "xml list \<Rightarrow> xml list" where
  "deleted_markup (Element t a cs) =
     Element (if t = ''w:t'' then ''w:delText'' else t) a (deleted_markups cs)"
| "deleted_markup (Text s) = Text s"
| "deleted_markup (Comment s) = Comment s"
| "deleted_markups [] = []"
| "deleted_markups (c # cs) = deleted_markup c # deleted_markups cs"

text \<open>
  Modelled from the spec: the deletion-tracking element around the content of the node,
  with the revision identifier and the author.  A character-data node has no content to
  wrap.
\<close>

fun mark_deleted :: "string \<Rightarrow> string \<Rightarrow> xml \<Rightarrow> xml" where
  "mark_deleted author revision (Element t a cs) =
     Element t a
       [Element ''w:del'' [(''w:id'', revision), (''w:author'', author)] (deleted_markups cs)]"
| "mark_deleted author revision n = n"

text \<open>The tree with the node at a position replaced by its image under \<open>f\<close>.\<close>

fun replace_at :: "(xml \<Rightarrow> xml) \<Rightarrow> node \<Rightarrow> xml list \<Rightarrow> xml list" where
  "replace_at f [] cs = cs"
| "replace_at f [i] cs = (if i < length cs then cs[i := f (cs ! i)] else cs)"
| "replace_at f (i # j # p) cs =
     (if i < length cs then
        cs[i := (case cs ! i of
                   Element t a ds \<Rightarrow> Element t a (replace_at f (j # p) ds)
                 | n \<Rightarrow> n)]
      else cs)"

text \<open>
  Modelled from the spec: \<^verbatim>\<open>suggestDeletion(part, node, author)\<close> on the tree of the
  part, with the fresh revision identifier as an argument.
\<close>

definition suggestDeletion :: "xml \<Rightarrow> node \<Rightarrow> string \<Rightarrow> string \<Rightarrow> error + xml" where
  "suggestDeletion root n author revision =
     (case node_at [root] n of
        None \<Rightarrow> Inl (Raised LocationNotFound ''no such node'')
      | Some _ \<Rightarrow>
          (case replace_at (mark_deleted author revision) n [root] of
             [root'] \<Rightarrow> Inr root'
           | _ \<Rightarrow> Inl (Raised LocationNotFound ''no such node'')))"

text \<open>
  Well-formedness of a part.  A part is written as a sequence of tokens: start-tags with
  their attributes, end-tags, character data and comments.  It is well-formed when the
  tags nest properly with matching names, no start-tag has an attribute name twice, and
  there is one document element.  The parser reads the tokens with a stack of the open
  elements, each with the children read before it, and gives the tree.
\<close>

datatype token =
    StartTag string "(string \<times> string) list"
  | EndTag string
  | CharData string
  | CommentData string

fun toxml :: "xml \<Rightarrow> token list"
  and toxml_all :: "xml list \<Rightarrow> token list" where
  "toxml (Element t a cs) = StartTag t a # toxml_all cs @ [EndTag t]"
| "toxml (Text s) = [CharData s]"
| "toxml (Comment s) = [CommentData s]"
| "toxml_all [] = []"
| "toxml_all (c # cs) = toxml c @ toxml_all cs"

fun parse_tokens ::
  "token list \<Rightarrow> (string \<times> (string \<times> string) list \<times> xml list) list \<Rightarrow> xml list \<Rightarrow>
     xml list option" where
  "parse_tokens [] [] seen = Some (rev seen)"
| "parse_tokens [] (frame # stack) seen = None"
| "parse_tokens (StartTag t a # ts) stack seen =
     (if distinct (map fst a) then parse_tokens ts ((t, a, seen) # stack) [] else None)"
| "parse_tokens (EndTag t # ts) [] seen = None"
| "parse_tokens (EndTag t # ts) ((t', a, before) # stack) seen =
     (if t = t' then parse_tokens ts stack (Element t a (rev seen) # before) else None)"
| "parse_tokens (CharData s # ts) stack seen = parse_tokens ts stack (Text s # seen)"
| "parse_tokens (CommentData s # ts) stack seen = parse_tokens ts stack (Comment s # seen)"

definition parseString :: "token list \<Rightarrow> xml option" where
  "parseString ts =
     (case parse_tokens ts [] [] of
        Some [Element t a cs] \<Rightarrow> Some (Element t a cs)
      | _ \<Rightarrow> None)"

text \<open>The trees a parser gives: no element has an attribute name twice.\<close>

fun unique_attributes :: "xml \<Rightarrow> bool"
  and all_unique_attributes :: "xml list \<Rightarrow> bool" where
  "unique_attributes (Element t a cs) = (distinct (map fst a) \<and> all_unique_attributes cs)"
| "unique_attributes (Text s) = True"
| "unique_attributes (Comment s) = True"
| "all_unique_attributes [] = True"
| "all_unique_attributes (c # cs) = (unique_attributes c \<and> all_unique_attributes cs)"

text \<open>The character data of a tree, in document order.\<close>

fun character_data :: "xml \<Rightarrow> string"
  and character_data_all :: "xml list \<Rightarrow> string" where
  "character_data (Element t a cs) = character_data_all cs"
| "character_data (Text s) = s"
| "character_data (Comment s) = []"
| "character_data_all [] = []"
| "character_data_all (c # cs) = character_data c @ character_data_all cs"

section \<open>Document order of \<^verbatim>\<open>getElementsByTagName\<close>\<close>

text \<open>
  Positions are compared lexicographically, a node before its descendants: this is the
  document order.  The collected positions are strictly increasing, and they are the
  positions of exactly the elements whose tag matches.
\<close>

lemma fst_shift: "map fst (map (\<lambda>(p, e). (i # p, e)) xs) = map ((#) i) (map fst xs)"
  by (simp add: case_prod_beta)

lemma elements_sorted_aux:
  "sorted_wrt (<) (map fst (get_elements_by_tagName_helper c name)) \<and>
     [] \<notin> set (map fst (get_elements_by_tagName_helper c name))"
  "sorted_wrt (<) (map fst (elements_from name i cs)) \<and>
     (\<forall>p \<in> set (map fst (elements_from name i cs)). \<exists>j q. p = j # q \<and> i \<le> j)"
proof (induction c name and name i cs rule: get_elements_by_tagName_helper_elements_from.induct)
  case (1 t a cs name)
  then show ?case by fastforce
next
  case (5 name i c cs)
  let ?H = "map fst (get_elements_by_tagName_helper c name)"
  let ?R = "map fst (elements_from name (Suc i) cs)"
  let ?M = "map ((#) i) ?H"
  let ?T = "if tag_matches name c then [[i]] else []"
  have eq: "map fst (elements_from name i (c # cs)) = ?T @ ?M @ ?R"
    by (simp add: fst_shift del: map_map)
  have a: "sorted_wrt (<) ?M"
    using 5(1) by (simp add: sorted_wrt_map)
  have b: "\<forall>p \<in> set ?R. \<exists>j q. p = j # q \<and> Suc i \<le> j"
    using 5(2) by simp
  have c: "\<forall>p \<in> set ?M. \<exists>q. p = i # q \<and> q \<noteq> []"
    using 5(1) by (force simp: image_iff)
  have MR: "\<forall>x \<in> set ?M. \<forall>y \<in> set ?R. x < y"
  proof (intro ballI)
    fix x y assume "x \<in> set ?M" "y \<in> set ?R"
    then obtain q j r where "x = i # q" "y = j # r" "Suc i \<le> j" using b c by blast
    then show "x < y" by simp
  qed
  have hd1: "\<forall>y \<in> set ?M. [i] < y"
  proof
    fix y assume "y \<in> set ?M"
    then obtain q where "y = i # q" "q \<noteq> []" using c by blast
    then show "[i] < y" by (cases q) simp_all
  qed
  have hd2: "\<forall>y \<in> set ?R. [i] < y"
  proof
    fix y assume "y \<in> set ?R"
    then obtain j r where "y = j # r" "Suc i \<le> j" using b by blast
    then show "[i] < y" by simp
  qed
  have s0: "sorted_wrt (<) (?M @ ?R)"
    using a 5(2) MR sorted_wrt_append by blast
  have s1: "sorted_wrt (<) ([i] # ?M @ ?R)"
    using s0 hd1 hd2 by (simp only: sorted_wrt.simps set_append Un_iff) blast
  have s: "sorted_wrt (<) (?T @ ?M @ ?R)"
    using s0 s1 by (cases "tag_matches name c") (simp_all only: if_True if_False append.simps)
  have r: "\<forall>p \<in> set (?T @ ?M @ ?R). \<exists>j q. p = j # q \<and> i \<le> j"
  proof
    fix p assume "p \<in> set (?T @ ?M @ ?R)"
    then consider "p = [i]" | "p \<in> set ?M" | "p \<in> set ?R" by (auto split: if_splits)
    then show "\<exists>j q. p = j # q \<and> i \<le> j"
    proof cases
      case 1 then show ?thesis by simp
    next
      case 2 then show ?thesis using c by blast
    next
      case 3 then obtain j r where "p = j # r" "Suc i \<le> j" using b by blast
      then show ?thesis by simp
    qed
  qed
  show ?case unfolding eq using s r by blast
qed simp_all

lemma node_at_Cons_Suc: "node_at (c # cs) (Suc j # r) = node_at cs (j # r)"
  by (cases r) simp_all

lemma node_at_Nil [simp]: "node_at [] p = None"
  by (induction "[] :: xml list" p rule: node_at.induct) simp_all

lemma elements_complete_aux:
  "(p, e) \<in> set (get_elements_by_tagName_helper c name) \<longleftrightarrow>
     (node_at (childNodes c) p = Some e \<and> tag_matches name e)"
  "(p, e) \<in> set (elements_from name i cs) \<longleftrightarrow>
     (\<exists>j q. p = (i + j) # q \<and> node_at cs (j # q) = Some e \<and> tag_matches name e)"
proof (induction c name and name i cs arbitrary: p and p rule: get_elements_by_tagName_helper_elements_from.induct)
  case (1 t a cs name)
  show ?case
  proof (cases p)
    case Nil
    then show ?thesis using 1[of p] by simp
  next
    case (Cons j q)
    then show ?thesis using 1[of p] by simp
  qed
next
  case (5 name i c cs)
  show ?case
  proof (cases p)
    case Nil
    then show ?thesis using 5(2)[of "[]"] by (auto split: if_splits)
  next
    case (Cons k q)
    show ?thesis
    proof (cases "k = i")
      case True
      show ?thesis
      proof (cases q)
        case Nil
        then show ?thesis using Cons True 5(1)[of "[]"] 5(2)[of p] by auto
      next
        case (Cons a list)
        then show ?thesis using \<open>p = k # q\<close> True 5(1)[of q] 5(2)[of p] by auto
      qed
    next
      case False
      have "(p, e) \<in> set (elements_from name i (c # cs)) \<longleftrightarrow>
              (p, e) \<in> set (elements_from name (Suc i) cs)"
        using False Cons by auto
      also have "\<dots> \<longleftrightarrow> (\<exists>j r. p = (Suc i + j) # r \<and> node_at cs (j # r) = Some e \<and> tag_matches name e)"
        using 5(2)[of p] by simp
      also have "\<dots> \<longleftrightarrow> (\<exists>j r. p = (i + j) # r \<and> node_at (c # cs) (j # r) = Some e \<and> tag_matches name e)"
      proof
        assume "\<exists>j r. p = (Suc i + j) # r \<and> node_at cs (j # r) = Some e \<and> tag_matches name e"
        then obtain j r where "p = (i + Suc j) # r" "node_at (c # cs) (Suc j # r) = Some e" "tag_matches name e"
          by (auto simp: node_at_Cons_Suc)
        then show "\<exists>j r. p = (i + j) # r \<and> node_at (c # cs) (j # r) = Some e \<and> tag_matches name e"
          by blast
      next
        assume "\<exists>j r. p = (i + j) # r \<and> node_at (c # cs) (j # r) = Some e \<and> tag_matches name e"
        then obtain j r where jr: "p = (i + j) # r" "node_at (c # cs) (j # r) = Some e" "tag_matches name e"
          by blast
        with False Cons obtain j' where "j = Suc j'" by (cases j) auto
        with jr show "\<exists>j r. p = (Suc i + j) # r \<and> node_at cs (j # r) = Some e \<and> tag_matches name e"
          by (auto simp: node_at_Cons_Suc)
      qed
      finally show ?thesis .
    qed
  qed
qed simp_all

lemma getElementsByTagName_sorted:
  "sorted_wrt (<) (map fst (getElementsByTagName root name))"
  unfolding getElementsByTagName_def using elements_sorted_aux(2) by blast

lemma getElementsByTagName_complete:
  "(p, e) \<in> set (getElementsByTagName root name) \<longleftrightarrow>
     node_at [root] p = Some e \<and> tag_matches name e"
proof (cases p)
  case Nil
  then show ?thesis unfolding getElementsByTagName_def elements_complete_aux(2) by simp
next
  case (Cons j q)
  then show ?thesis unfolding getElementsByTagName_def elements_complete_aux(2) by auto
qed

section \<open>Calls, results and the location lookup\<close>

lemma step_calls:
  "fst (step c r k) = c # (case r of Inl e \<Rightarrow> [] | Inr x \<Rightarrow> fst (k x))"
  by (simp add: step_def split: sum.splits prod.splits)


lemma step_Inr: "step c (Inr x) k = (c # fst (k x), snd (k x))"
  by (simp add: step_def split: prod.splits)

lemma step_Inl: "step c (Inl e) k = ([c], Inl e)"
  by (simp add: step_def)

lemma str_int_3: "str_int 3 = ''3''"
  by (simp add: str_int_def str_nat.simps digit_char_def)

text \<open>The three editing operations when neither lookup finds a node.\<close>

lemma location_not_found:
  assumes "unpack_document env fs docx_path = Inr dir"
    and "Document env dir (Some author) None = Inr doc"
    and "getitem env doc ''word/document.xml'' = Inr (doc', body)"
    and "get_node env body ''w:p'' location = Inr None"
    and "\<not> (0 \<le> location \<and> location < int (length (getElementsByTagName body ''w:p'')))"
    and "calls = [Unpack docx_path, NewDocument, GetItem ''word/document.xml'',
                  GetNode ''w:p'' location]"
    and "failure = JObject [(''success'', JBool False),
            (''error'', JStr (''Could not find paragraph at location '' @ str_int location))]"
  shows "add_comment env fs docx_path location content author = (calls, Inr (failure, fs))"
    and "suggest_insertion env fs docx_path location content author = (calls, Inr (failure, fs))"
    and "suggest_deletion env fs docx_path location author = (calls, Inr (failure, fs))"
proof -
  have nf: "(if 0 \<le> location \<and> location < int (length (getElementsByTagName body ''w:p''))
             then Some (fst (getElementsByTagName body ''w:p'' ! nat location)) else None) = None"
    using assms(5) by (simp only: if_False)
  show "add_comment env fs docx_path location content author = (calls, Inr (failure, fs))"
    using assms(1-4) nf unfolding assms(6,7)
    by (simp add: add_comment_def step_def returns_def Let_def)
  show "suggest_insertion env fs docx_path location content author = (calls, Inr (failure, fs))"
    using assms(1-4) nf unfolding assms(6,7)
    by (simp add: suggest_insertion_def step_def returns_def Let_def)
  show "suggest_deletion env fs docx_path location author = (calls, Inr (failure, fs))"
    using assms(1-4) nf unfolding assms(6,7)
    by (simp add: suggest_deletion_def step_def returns_def Let_def)
qed

subsection \<open>The concrete environment on the three-paragraph document\<close>

lemma small_paragraphs:
  "getElementsByTagName hello_dom ''w:p'' =
     [([0, 0, 0], Element ''w:p'' [] [Element ''w:r'' [] [Element ''w:t'' [] [Text ''Hello'']]]),
      ([0, 0, 1], Element ''w:p'' [] [Element ''w:r'' [] [Element ''w:t'' [] [Text ''  '']]]),
      ([0, 0, 2], Element ''w:p'' [] [Element ''w:r'' [] [Element ''w:t'' [] [Text '' World '']]])]"
  by (simp add: getElementsByTagName_def hello_dom_def)

lemma small_unpack:
  "unpack_document small_env small_files ''report.docx'' =
     Inr [''[Content_Types].xml'' \<mapsto> ''<Types/>'', ''word/document.xml'' \<mapsto> hello_text]"
  by (simp add: small_env_def archive_unpack_def small_files_def)

lemma small_document:
  "Document small_env dir author initials = Inr (dir, None)"
  by (simp add: small_env_def)

lemma small_getitem:
  "getitem small_env
      ([''[Content_Types].xml'' \<mapsto> ''<Types/>'', ''word/document.xml'' \<mapsto> hello_text], None)
      ''word/document.xml'' =
     Inr (([''[Content_Types].xml'' \<mapsto> ''<Types/>'', ''word/document.xml'' \<mapsto> hello_text],
           Some hello_dom), hello_dom)"
  by (simp add: small_env_def registry_get_def parse_part_def known_parts_def)

lemma small_get_node: "get_node small_env body tag location = Inr None"
  by (simp add: small_env_def)

lemma tag_matches_w_p: "tag_matches ''w:p'' e \<Longrightarrow> tagName e = Some ''w:p''"
  by (cases e) simp_all

lemma nth_paragraph:
  assumes "i < length (getElementsByTagName body name)"
  shows "\<exists>e. node_at [body] (fst (getElementsByTagName body name ! i)) = Some e \<and>
             tag_matches name e"
proof -
  obtain p e where pe: "getElementsByTagName body name ! i = (p, e)" by (cases "getElementsByTagName body name ! i")
  with assms have "(p, e) \<in> set (getElementsByTagName body name)"
    by (metis nth_mem)
  then show ?thesis using pe by (simp add: getElementsByTagName_complete)
qed

lemma small_add_comment:
  "fst (add_comment small_env small_files ''report.docx'' 2 ''Check this'' ''Claude'') =
     [Unpack ''report.docx'', NewDocument, GetItem ''word/document.xml'', GetNode ''w:p'' 2,
      AddComment [0, 0, 2] [0, 0, 2] ''Check this'', Save, Pack ''report.docx'']"
  apply (simp add: add_comment_def step_Inr small_unpack small_document small_getitem small_get_node
      small_paragraphs Let_def)
  apply (simp add: small_env_def registry_save_def write_part_def known_parts_def archive_pack_def returns_def step_Inr
     hello_dom_def tracked_dom_def break_dom_def)
  done

subsection \<open>Result objects and the exit status\<close>








lemma main_cases:
  "main env random fs NoCommand = (\<lparr>printed = None, exit_status = 1, uncaught = None\<rparr>, fs)"
  "main env random fs (AddCommentArgs docx_path location content author) =
     report (add_comment env fs docx_path location content author) fs"
  "main env random fs (EnableTrackingArgs docx_path author initials) =
     report (enable_tracking env random fs docx_path author initials) fs"
  "main env random fs (SuggestInsertionArgs docx_path location content author) =
     report (suggest_insertion env fs docx_path location content author) fs"
  "main env random fs (SuggestDeletionArgs docx_path location author) =
     report (suggest_deletion env fs docx_path location author) fs"
  "main env random fs (ValidateArgs docx_path) =
     report (validate_document env fs docx_path) fs"
  by (simp_all add: main_def)



lemma read_document_object:
  "\<exists>b. json_get (read_document env d) ''success'' = Some (JBool b) \<and>
       (\<not> b \<longrightarrow> (\<exists>msg. json_get (read_document env d) ''error'' = Some (JStr msg)))"
  by (auto simp: read_document_def try_except_def Let_def split: sum.splits prod.splits)

lemma validate_document_cli_object:
  "\<exists>b. json_get (validate_document_cli env d) ''success'' = Some (JBool b) \<and>
       json_get (validate_document_cli env d) ''valid'' = Some (JBool b) \<and>
       (\<not> b \<longrightarrow> (\<exists>msg. json_get (validate_document_cli env d) ''errors'' = Some (JList [JStr msg])))"
  by (auto simp: validate_document_cli_def try_except_def Let_def split: sum.splits prod.splits)

subsection \<open>The loop of \<^verbatim>\<open>read_document\<close>\<close>

lemma value_of_plain:
  "plain n \<Longrightarrow> firstChild n = Some c \<Longrightarrow> nodeValue c = Some (leading_data n)"
  by (induction n rule: plain.induct) (auto elim: firstChild.elims)

lemma no_child_data: "firstChild n = None \<Longrightarrow> leading_data n = []"
  by (induction n rule: firstChild.induct) auto

lemma value_of_not_plain:
  "\<not> plain n \<Longrightarrow> \<exists>c. firstChild n = Some c \<and> nodeValue c = None"
  by (induction n rule: plain.induct) auto

lemma join_plain:
  "list_all plain ts \<Longrightarrow>
     join_values k (List.map_filter (\<lambda>n. map_option nodeValue (firstChild n)) ts) =
       Inr (concat (map leading_data ts))"
proof (induction ts arbitrary: k)
  case Nil
  then show ?case by (simp add: List.map_filter_simps)
next
  case (Cons n ts)
  show ?case
  proof (cases "firstChild n")
    case None
    then show ?thesis using Cons by (simp add: List.map_filter_simps no_child_data)
  next
    case (Some c)
    then show ?thesis using Cons value_of_plain [of n c]
      by (simp add: List.map_filter_simps)
  qed
qed

lemma join_not_plain:
  "\<not> list_all plain ts \<Longrightarrow>
     \<exists>j. join_values k (List.map_filter (\<lambda>n. map_option nodeValue (firstChild n)) ts) =
       Inl (Raised TypeError
         (''sequence item '' @ str_nat j @ '': expected str instance, NoneType found''))"
proof (induction ts arbitrary: k)
  case Nil
  then show ?case by simp
next
  case (Cons n ts)
  show ?case
  proof (cases "plain n")
    case False
    then obtain c where "firstChild n = Some c" "nodeValue c = None"
      using value_of_not_plain by blast
    then show ?thesis by (auto simp: List.map_filter_simps)
  next
    case True
    with Cons.prems have rest: "\<not> list_all plain ts" by simp
    show ?thesis
    proof (cases "firstChild n")
      case None
      then show ?thesis using Cons.IH [OF rest, of k] by (simp add: List.map_filter_simps)
    next
      case (Some c)
      obtain j where "join_values (Suc k) (List.map_filter (\<lambda>n. map_option nodeValue (firstChild n)) ts) =
          Inl (Raised TypeError
         (''sequence item '' @ str_nat j @ '': expected str instance, NoneType found''))"
        using Cons.IH [OF rest, of "Suc k"] by blast
      then show ?thesis using Some value_of_plain [OF True Some]
        by (auto simp: List.map_filter_simps)
    qed
  qed
qed

lemma text_of_plain_paragraph:
  "plain_paragraph p \<Longrightarrow> text_of_paragraph p = Inr (stated_text p)"
  by (simp add: plain_paragraph_def text_of_paragraph_def stated_text_def join_plain)

lemma text_of_other_paragraph:
  "\<not> plain_paragraph p \<Longrightarrow> \<exists>j. text_of_paragraph p = Inl (Raised TypeError
         (''sequence item '' @ str_nat j @ '': expected str instance, NoneType found''))"
  unfolding plain_paragraph_def text_of_paragraph_def Let_def
  by (rule join_not_plain)

lemma read_plain_paragraphs:
  "list_all plain_paragraph ps \<Longrightarrow>
     read_paragraphs (enumerate i ps) =
       Inr [JObject [(''index'', JInt (int j)), (''text'', JStr (strip (stated_text p)))].
              (j, p) \<leftarrow> enumerate i ps, strip (stated_text p) \<noteq> []]"
  by (induction ps arbitrary: i) (simp_all add: text_of_plain_paragraph)

lemma read_other_paragraphs:
  "\<not> list_all plain_paragraph ps \<Longrightarrow>
     \<exists>j. read_paragraphs (enumerate i ps) = Inl (Raised TypeError
         (''sequence item '' @ str_nat j @ '': expected str instance, NoneType found''))"
proof (induction ps arbitrary: i)
  case Nil
  then show ?case by simp
next
  case (Cons p ps)
  show ?case
  proof (cases "plain_paragraph p")
    case False
    then show ?thesis using text_of_other_paragraph [of p] by auto
  next
    case True
    with Cons.prems have "\<not> list_all plain_paragraph ps" by simp
    from Cons.IH [OF this, of "Suc i"] show ?thesis
      using True by (auto simp: text_of_plain_paragraph)
  qed
qed

lemma break_paragraphs:
  "map snd (getElementsByTagName break_dom ''w:p'') =
     [Element ''w:p'' [] [Element ''w:r'' [] [Element ''w:t'' [] [Text ''Hello'']]],
      Element ''w:p'' [] [Element ''w:r'' [] [Element ''w:t'' [] [Element ''w:br'' [] []]]]]"
  by (simp add: getElementsByTagName_def break_dom_def)

lemma hello_strips:
  "strip ''Hello'' = ''Hello''" "strip ''  '' = []" "strip '' World '' = ''World''"
  by (simp_all add: strip_def isspace_def)

subsection \<open>The revision-session identifier\<close>






subsection \<open>Tracked deletion\<close>

lemma parse_toxml:
  "unique_attributes x \<Longrightarrow> parse_tokens (toxml x @ ts) stack seen = parse_tokens ts stack (x # seen)"
  "all_unique_attributes xs \<Longrightarrow>
     parse_tokens (toxml_all xs @ ts) stack seen = parse_tokens ts stack (rev xs @ seen)"
proof (induction x and xs arbitrary: ts stack seen and ts stack seen rule: toxml_toxml_all.induct)
  case (1 t a cs)
  then show ?case by simp
qed simp_all

lemma parseString_toxml:
  "unique_attributes (Element t a cs) \<Longrightarrow> parseString (toxml (Element t a cs)) = Some (Element t a cs)"
  using parse_toxml(1) [of "Element t a cs" "[]" "[]" "[]"]
  by (simp add: parseString_def del: toxml.simps)

lemma length_replace_at [simp]: "length (replace_at f p cs) = length cs"
  by (induction f p cs rule: replace_at.induct) simp_all

lemma node_at_replace_at:
  "node_at cs p = Some x \<Longrightarrow> node_at (replace_at f p cs) p = Some (f x)"
proof (induction cs p rule: node_at.induct)
  case (1 cs)
  then show ?case by simp
next
  case (2 cs i)
  then show ?case by (simp split: if_splits)
next
  case (3 cs i j p)
  from "3.prems" have i: "i < length cs" and sub: "node_at (childNodes (cs ! i)) (j # p) = Some x"
    by (simp_all split: if_splits)
  show ?case
  proof (cases "cs ! i")
    case (Element t a ds)
    with "3.IH" [OF i] sub have "node_at (replace_at f (j # p) ds) (j # p) = Some (f x)"
      by simp
    with i Element show ?thesis by simp
  next
    case (Text s)
    with sub show ?thesis by simp
  next
    case (Comment s)
    with sub show ?thesis by simp
  qed
qed

lemma all_unique_list: "all_unique_attributes cs = list_all unique_attributes cs"
  by (induction cs) simp_all

lemma character_data_concat: "character_data_all cs = concat (map character_data cs)"
  by (induction cs) simp_all

lemma list_all_update:
  "list_all P cs \<Longrightarrow> P y \<Longrightarrow> list_all P (cs[i := y])"
  by (induction cs arbitrary: i) (auto split: nat.splits)

lemma concat_map_update:
  "i < length cs \<Longrightarrow> g y = g (cs ! i) \<Longrightarrow> concat (map g (cs[i := y])) = concat (map g cs)"
  by (induction cs arbitrary: i) (auto split: nat.splits)

lemma unique_replace_at:
  "\<forall>x. unique_attributes x \<longrightarrow> unique_attributes (f x) \<Longrightarrow>
   all_unique_attributes cs \<Longrightarrow> all_unique_attributes (replace_at f p cs)"
proof (induction f p cs rule: replace_at.induct)
  case (1 f cs)
  then show ?case by simp
next
  case (2 f i cs)
  show ?case
  proof (cases "i < length cs")
    case False
    with 2 show ?thesis by simp
  next
    case True
    with 2 have "unique_attributes (cs ! i)"
      by (simp add: all_unique_list list_all_length)
    with "2.prems"(1) have "unique_attributes (f (cs ! i))" by blast
    with 2 True show ?thesis by (simp add: all_unique_list list_all_update)
  qed
next
  case (3 f i j p cs)
  show ?case
  proof (cases "i < length cs")
    case False
    with 3 show ?thesis by simp
  next
    case True
    with "3.prems" have u: "unique_attributes (cs ! i)"
      by (simp add: all_unique_list list_all_length)
    have "unique_attributes (case cs ! i of
                   Element t a ds \<Rightarrow> Element t a (replace_at f (j # p) ds)
                 | n \<Rightarrow> n)"
    proof (cases "cs ! i")
      case (Element t a ds)
      with u "3.IH" [OF True Element "3.prems"(1)] show ?thesis by simp
    qed simp_all
    with True "3.prems" show ?thesis
      by (simp add: all_unique_list list_all_update)
  qed
qed

lemma data_replace_at:
  "\<forall>x. character_data (f x) = character_data x \<Longrightarrow>
   character_data_all (replace_at f p cs) = character_data_all cs"
proof (induction f p cs rule: replace_at.induct)
  case (1 f cs)
  then show ?case by simp
next
  case (2 f i cs)
  show ?case
  proof (cases "i < length cs")
    case False
    then show ?thesis by simp
  next
    case True
    have "character_data (f (cs ! i)) = character_data (cs ! i)"
      using "2.prems" by blast
    with True have "concat (map character_data (cs[i := f (cs ! i)])) =
        concat (map character_data cs)"
      by (rule concat_map_update)
    with True show ?thesis by (simp add: character_data_concat)
  qed
next
  case (3 f i j p cs)
  show ?case
  proof (cases "i < length cs")
    case False
    then show ?thesis by simp
  next
    case True
    have "character_data (case cs ! i of
                   Element t a ds \<Rightarrow> Element t a (replace_at f (j # p) ds)
                 | n \<Rightarrow> n) = character_data (cs ! i)"
    proof (cases "cs ! i")
      case (Element t a ds)
      with "3.IH" [OF True Element "3.prems"] show ?thesis by simp
    qed simp_all
    with True have "concat (map character_data (cs[i := (case cs ! i of
                   Element t a ds \<Rightarrow> Element t a (replace_at f (j # p) ds)
                 | n \<Rightarrow> n)])) = concat (map character_data cs)"
      by (rule concat_map_update)
    with True show ?thesis by (simp add: character_data_concat)
  qed
qed

lemma deleted_markup_unique:
  "unique_attributes x \<Longrightarrow> unique_attributes (deleted_markup x)"
  "all_unique_attributes xs \<Longrightarrow> all_unique_attributes (deleted_markups xs)"
  by (induction x and xs rule: deleted_markup_deleted_markups.induct) simp_all

lemma deleted_markup_data:
  "character_data (deleted_markup x) = character_data x"
  "character_data_all (deleted_markups xs) = character_data_all xs"
  by (induction x and xs rule: deleted_markup_deleted_markups.induct) simp_all

lemma mark_deleted_unique:
  "unique_attributes x \<Longrightarrow> unique_attributes (mark_deleted author revision x)"
  by (cases x) (simp_all add: deleted_markup_unique)

lemma mark_deleted_data:
  "character_data (mark_deleted author revision x) = character_data x"
  by (cases x) (simp_all add: deleted_markup_data)

lemma replace_at_root:
  assumes "node_at [root] n = Some (Element t a cs)"
  shows "\<exists>t' a' cs'. replace_at (mark_deleted author revision) n [root] = [Element t' a' cs']"
proof (cases n)
  case Nil
  with assms show ?thesis by simp
next
  case (Cons i q)
  show ?thesis
  proof (cases q)
    case Nil
    with Cons assms show ?thesis by (simp split: if_splits)
  next
    case (Cons j p)
    with \<open>n = i # q\<close> assms have i: "i = 0" and sub: "node_at (childNodes root) (j # p) = Some (Element t a cs)"
      by (simp_all split: if_splits)
    then obtain t' a' ds where "root = Element t' a' ds" by (cases root) simp_all
    with i Cons \<open>n = i # q\<close> show ?thesis by simp
  qed
qed

lemma hello_unique: "unique_attributes hello_dom"
  by (simp add: hello_dom_def)

section \<open>The statements of the specification\<close>

subsection \<open>C1\<close>

text \<open>
  C1.  When no target paragraph is found (the line-based lookup finds no node and the
  location is not an index of a paragraph), each of \<^verbatim>\<open>add_comment\<close>,
  \<^verbatim>\<open>suggest_insertion\<close> and \<^verbatim>\<open>suggest_deletion\<close> returns the result object with
  \<^verbatim>\<open>success\<close> false and an \<^verbatim>\<open>error\<close> string; it has called neither \<^verbatim>\<open>save\<close> nor
  \<^verbatim>\<open>pack_document\<close>, and the file system, with the archive at \<^verbatim>\<open>docx_path\<close>, is the
  one it started from.
\<close>

theorem not_found_fails_untouched:
  assumes "unpack_document env fs docx_path = Inr dir"
    and "Document env dir (Some author) None = Inr doc"
    and "getitem env doc ''word/document.xml'' = Inr (doc', body)"
    and "get_node env body ''w:p'' location = Inr None"
    and "\<not> (0 \<le> location \<and> location < int (length (getElementsByTagName body ''w:p'')))"
    and "r = add_comment env fs docx_path location content author \<or>
         r = suggest_insertion env fs docx_path location content author \<or>
         r = suggest_deletion env fs docx_path location author"
  shows "(\<exists>result message.
            snd r = Inr (result, fs) \<and>
            json_get result ''success'' = Some (JBool False) \<and>
            json_get result ''error'' = Some (JStr message)) \<and>
         Save \<notin> set (fst r) \<and> (\<forall>path. Pack path \<notin> set (fst r))"
  using assms(6) location_not_found [OF assms(1-5) refl refl]
  by auto

theorem not_found_fails_untouched_witness:
  "(\<exists>result message.
      snd (suggest_deletion small_env small_files ''report.docx'' 3 ''Claude'') =
        Inr (result, small_files) \<and>
      json_get result ''success'' = Some (JBool False) \<and>
      json_get result ''error'' = Some (JStr message)) \<and>
   Save \<notin> set (fst (suggest_deletion small_env small_files ''report.docx'' 3 ''Claude'')) \<and>
   (\<forall>path. Pack path \<notin>
     set (fst (suggest_deletion small_env small_files ''report.docx'' 3 ''Claude'')))"
proof -
  have "\<not> (0 \<le> (3::int) \<and> 3 < int (length (getElementsByTagName hello_dom ''w:p'')))"
    by (simp add: small_paragraphs)
  from not_found_fails_untouched [OF small_unpack small_document small_getitem small_get_node this,
      of "suggest_deletion small_env small_files ''report.docx'' 3 ''Claude''" "''note''" "''Claude''"]
  show ?thesis by simp
qed

subsection \<open>C2\<close>

text \<open>
  C2.  As stated, for every public operation, the statement does not hold: the
  operations of \<^verbatim>\<open>word_ops.py\<close> have no exception handler.  \<^verbatim>\<open>ArchiveCorrupt\<close> raised while
  unpacking an archive that cannot be opened, and \<^verbatim>\<open>MalformedXml\<close> raised while parsing
  a body part that is not well-formed, escape from \<^verbatim>\<open>add_comment\<close>.
\<close>

theorem ops_let_exceptions_escape:
  "add_comment small_env Map.empty ''missing.docx'' 0 ''Check this'' ''Claude'' =
     ([Unpack ''missing.docx''], Inl (Raised ArchiveCorrupt ''cannot open archive'')) \<and>
   add_comment small_env [''draft.docx'' \<mapsto> ''<w:document><w:body>''] ''draft.docx'' 0
       ''Check this'' ''Claude'' =
     ([Unpack ''draft.docx'', NewDocument, GetItem ''word/document.xml''],
      Inl (Raised MalformedXml ''not well-formed (invalid token)''))"
  by (simp add: add_comment_def step_def small_env_def archive_unpack_def registry_get_def
      parse_part_def known_parts_def hello_text_def tracked_text_def break_text_def)

text \<open>
  C2, amended.  \<^verbatim>\<open>read_document\<close> and \<^verbatim>\<open>validate_document\<close> of \<^verbatim>\<open>word_cli.py\<close>
  always return a result object; an exception raised in them (by \<^verbatim>\<open>Document\<close>, by
  \<^verbatim>\<open>doc.get\<close>) is reported as \<^verbatim>\<open>success\<close> false with its message as \<^verbatim>\<open>error\<close>
  (\<^verbatim>\<open>errors\<close> for the validation).  The operations of \<^verbatim>\<open>word_ops.py\<close> catch nothing: an
  exception raised while unpacking or while loading the body part escapes from the
  operation, and \<^verbatim>\<open>main\<close> then prints no result object and ends with status 1.
\<close>

theorem exceptions_reported_by_cli_escape_from_ops:
  "(\<exists>b. json_get (read_document env d) ''success'' = Some (JBool b) \<and>
       (\<not> b \<longrightarrow> (\<exists>msg. json_get (read_document env d) ''error'' = Some (JStr msg)))) \<and>
   (\<exists>b. json_get (validate_document_cli env d) ''success'' = Some (JBool b) \<and>
       (\<not> b \<longrightarrow> (\<exists>msg. json_get (validate_document_cli env d) ''errors'' = Some (JList [JStr msg])))) \<and>
   (Document env d None None = Inl e \<longrightarrow>
      read_document env d = JObject [(''success'', JBool False), (''error'', JStr (str_error e))] \<and>
      validate_document_cli env d =
        JObject [(''success'', JBool False), (''valid'', JBool False),
                 (''errors'', JList [JStr (str_error e)])]) \<and>
   (Document env d None None = Inr doc \<and> get env doc ''word/document.xml'' = Inl e \<longrightarrow>
      read_document env d = JObject [(''success'', JBool False), (''error'', JStr (str_error e))]) \<and>
   (unpack_document env fs docx_path = Inl e \<longrightarrow>
      add_comment env fs docx_path location content author = ([Unpack docx_path], Inl e) \<and>
      enable_tracking env random fs docx_path author initials = ([Unpack docx_path], Inl e) \<and>
      suggest_insertion env fs docx_path location content author = ([Unpack docx_path], Inl e) \<and>
      suggest_deletion env fs docx_path location author = ([Unpack docx_path], Inl e) \<and>
      validate_document env fs docx_path = ([Unpack docx_path], Inl e) \<and>
      main env random fs (AddCommentArgs docx_path location content author) =
        (\<lparr>printed = None, exit_status = 1, uncaught = Some e\<rparr>, fs)) \<and>
   (unpack_document env fs docx_path = Inr dir \<and>
    Document env dir (Some author) None = Inr doc \<and>
    getitem env doc ''word/document.xml'' = Inl e \<longrightarrow>
      snd (add_comment env fs docx_path location content author) = Inl e \<and>
      snd (suggest_insertion env fs docx_path location content author) = Inl e \<and>
      snd (suggest_deletion env fs docx_path location author) = Inl e \<and>
      main env random fs (SuggestDeletionArgs docx_path location author) =
        (\<lparr>printed = None, exit_status = 1, uncaught = Some e\<rparr>, fs))"
proof -
  have a: "Document env d None None = Inl e \<longrightarrow>
      read_document env d = JObject [(''success'', JBool False), (''error'', JStr (str_error e))] \<and>
      validate_document_cli env d =
        JObject [(''success'', JBool False), (''valid'', JBool False),
                 (''errors'', JList [JStr (str_error e)])]"
    by (simp add: read_document_def validate_document_cli_def try_except_def)
  have b: "Document env d None None = Inr doc \<and> get env doc ''word/document.xml'' = Inl e \<longrightarrow>
      read_document env d = JObject [(''success'', JBool False), (''error'', JStr (str_error e))]"
    by (simp add: read_document_def try_except_def)
  have c: "unpack_document env fs docx_path = Inl e \<longrightarrow>
      add_comment env fs docx_path location content author = ([Unpack docx_path], Inl e) \<and>
      enable_tracking env random fs docx_path author initials = ([Unpack docx_path], Inl e) \<and>
      suggest_insertion env fs docx_path location content author = ([Unpack docx_path], Inl e) \<and>
      suggest_deletion env fs docx_path location author = ([Unpack docx_path], Inl e) \<and>
      validate_document env fs docx_path = ([Unpack docx_path], Inl e) \<and>
      main env random fs (AddCommentArgs docx_path location content author) =
        (\<lparr>printed = None, exit_status = 1, uncaught = Some e\<rparr>, fs)"
    by (simp add: add_comment_def enable_tracking_def suggest_insertion_def suggest_deletion_def
        validate_document_def step_Inl main_cases report_def)
  have d: "unpack_document env fs docx_path = Inr dir \<and>
    Document env dir (Some author) None = Inr doc \<and>
    getitem env doc ''word/document.xml'' = Inl e \<longrightarrow>
      snd (add_comment env fs docx_path location content author) = Inl e \<and>
      snd (suggest_insertion env fs docx_path location content author) = Inl e \<and>
      snd (suggest_deletion env fs docx_path location author) = Inl e \<and>
      main env random fs (SuggestDeletionArgs docx_path location author) =
        (\<lparr>printed = None, exit_status = 1, uncaught = Some e\<rparr>, fs)"
    by (simp add: add_comment_def suggest_insertion_def suggest_deletion_def
        step_Inl step_Inr main_cases report_def)
  from validate_document_cli_object [of env d]
  have v: "\<exists>b. json_get (validate_document_cli env d) ''success'' = Some (JBool b) \<and>
       (\<not> b \<longrightarrow> (\<exists>msg. json_get (validate_document_cli env d) ''errors'' = Some (JList [JStr msg])))"
    by blast
  show ?thesis using read_document_object [of env d] v a b c d by blast
qed

theorem exceptions_reported_by_cli_escape_from_ops_witness:
  "read_document small_env Map.empty =
     JObject [(''success'', JBool False), (''error'', JStr ''word/document.xml'')] \<and>
   suggest_deletion small_env Map.empty ''missing.docx'' 0 ''Claude'' =
     ([Unpack ''missing.docx''], Inl (Raised ArchiveCorrupt ''cannot open archive'')) \<and>
   main small_env 255 [''draft.docx'' \<mapsto> ''<w:document><w:body>'']
       (SuggestDeletionArgs ''draft.docx'' 0 ''Claude'') =
     (\<lparr>printed = None, exit_status = 1,
       uncaught = Some (Raised MalformedXml ''not well-formed (invalid token)'')\<rparr>,
      [''draft.docx'' \<mapsto> ''<w:document><w:body>'']) \<and>
   validate_document_cli
       (small_env\<lparr>Document :=
          \<lambda>dir author initials. Inl (Raised IoFailure ''cannot read directory'')\<rparr>)
       Map.empty =
     JObject [(''success'', JBool False), (''valid'', JBool False),
              (''errors'', JList [JStr ''cannot read directory''])]"
proof -
  have g: "get small_env (Map.empty, None) ''word/document.xml'' =
      Inl (Raised PartNotFound ''word/document.xml'')"
    by (simp add: small_env_def registry_get_def)
  have u: "unpack_document small_env Map.empty ''missing.docx'' =
      Inl (Raised ArchiveCorrupt ''cannot open archive'')"
    by (simp add: small_env_def archive_unpack_def)
  have u2: "unpack_document small_env [''draft.docx'' \<mapsto> ''<w:document><w:body>''] ''draft.docx'' =
      Inr [''[Content_Types].xml'' \<mapsto> ''<Types/>'', ''word/document.xml'' \<mapsto> ''<w:document><w:body>'']"
    by (simp add: small_env_def archive_unpack_def)
  have g2: "getitem small_env
      ([''[Content_Types].xml'' \<mapsto> ''<Types/>'', ''word/document.xml'' \<mapsto> ''<w:document><w:body>''], None)
      ''word/document.xml'' = Inl (Raised MalformedXml ''not well-formed (invalid token)'')"
    by (simp add: small_env_def registry_get_def
      parse_part_def known_parts_def hello_text_def tracked_text_def break_text_def)
  have 1: "read_document small_env Map.empty =
     JObject [(''success'', JBool False), (''error'', JStr ''word/document.xml'')]"
    using exceptions_reported_by_cli_escape_from_ops [where env = small_env and d = Map.empty
        and doc = "(Map.empty, None)" and e = "Raised PartNotFound ''word/document.xml''"]
      g small_document by simp
  have 2: "suggest_deletion small_env Map.empty ''missing.docx'' 0 ''Claude'' =
     ([Unpack ''missing.docx''], Inl (Raised ArchiveCorrupt ''cannot open archive''))"
    using exceptions_reported_by_cli_escape_from_ops [where env = small_env and fs = Map.empty
        and docx_path = "''missing.docx''" and e = "Raised ArchiveCorrupt ''cannot open archive''"]
      u by simp
  have 3: "main small_env 255 [''draft.docx'' \<mapsto> ''<w:document><w:body>'']
       (SuggestDeletionArgs ''draft.docx'' 0 ''Claude'') =
     (\<lparr>printed = None, exit_status = 1,
       uncaught = Some (Raised MalformedXml ''not well-formed (invalid token)'')\<rparr>,
      [''draft.docx'' \<mapsto> ''<w:document><w:body>''])"
    using exceptions_reported_by_cli_escape_from_ops [where env = small_env
        and fs = "[''draft.docx'' \<mapsto> ''<w:document><w:body>'']"
        and docx_path = "''draft.docx''" and author = "''Claude''"
        and e = "Raised MalformedXml ''not well-formed (invalid token)''"
        and dir = "[''[Content_Types].xml'' \<mapsto> ''<Types/>'', ''word/document.xml'' \<mapsto> ''<w:document><w:body>'']"
        and doc = "([''[Content_Types].xml'' \<mapsto> ''<Types/>'', ''word/document.xml'' \<mapsto> ''<w:document><w:body>''], None)"]
      u2 g2 small_document by simp
  have 4: "validate_document_cli
       (small_env\<lparr>Document :=
          \<lambda>dir author initials. Inl (Raised IoFailure ''cannot read directory'')\<rparr>)
       Map.empty =
     JObject [(''success'', JBool False), (''valid'', JBool False),
              (''errors'', JList [JStr ''cannot read directory''])]"
    using exceptions_reported_by_cli_escape_from_ops
      [where env = "small_env\<lparr>Document :=
          \<lambda>dir author initials. Inl (Raised IoFailure ''cannot read directory'')\<rparr>"
        and d = Map.empty and e = "Raised IoFailure ''cannot read directory''"]
    by simp
  show ?thesis using 1 2 3 4 by blast
qed

subsection \<open>C3\<close>

text \<open>
  C3.  After \<^verbatim>\<open>suggestDeletion\<close> on an element of a parsed body part, the element is
  still in the tree, at its position and with its tag and attributes, and its content
  is inside the deletion-tracking marker it now holds; the character data of the part is
  what it was; and the part, written out, parses as well-formed XML, to the same tree.
\<close>

theorem suggested_deletion_keeps_node:
  assumes "node_at [root] n = Some (Element t a cs)"
    and "unique_attributes root"
  shows "\<exists>root'. suggestDeletion root n author revision = Inr root' \<and>
           node_at [root'] n =
             Some (Element t a [Element ''w:del'' [(''w:id'', revision), (''w:author'', author)]
                                  (deleted_markups cs)]) \<and>
           character_data root' = character_data root \<and>
           parseString (toxml root') = Some root'"
proof -
  let ?f = "mark_deleted author revision"
  obtain t' a' cs' where r: "replace_at ?f n [root] = [Element t' a' cs']"
    using replace_at_root [OF assms(1)] by blast
  let ?root' = "Element t' a' cs'"
  have s: "suggestDeletion root n author revision = Inr ?root'"
    using assms(1) r by (simp add: suggestDeletion_def)
  have "node_at (replace_at ?f n [root]) n = Some (?f (Element t a cs))"
    using assms(1) by (rule node_at_replace_at)
  then have present: "node_at [?root'] n =
      Some (Element t a [Element ''w:del'' [(''w:id'', revision), (''w:author'', author)]
                           (deleted_markups cs)])"
    unfolding r by simp
  have "all_unique_attributes (replace_at ?f n [root])"
    using mark_deleted_unique assms(2) by (intro unique_replace_at) simp_all
  then have u: "unique_attributes ?root'" unfolding r by simp
  have "character_data_all (replace_at ?f n [root]) = character_data_all [root]"
    by (rule data_replace_at) (simp add: mark_deleted_data)
  then have d: "character_data ?root' = character_data root" unfolding r by simp
  have "parseString (toxml ?root') = Some ?root'"
    using u by (rule parseString_toxml)
  with s present d show ?thesis by blast
qed

theorem suggested_deletion_keeps_node_witness:
  "suggestDeletion hello_dom [0, 0, 0] ''Claude'' ''1'' =
     Inr (Element ''w:document'' [] [Element ''w:body'' [] [
       Element ''w:p'' [] [
         Element ''w:del'' [(''w:id'', ''1''), (''w:author'', ''Claude'')] [
           Element ''w:r'' [] [Element ''w:delText'' [] [Text ''Hello'']]]],
       Element ''w:p'' [] [Element ''w:r'' [] [Element ''w:t'' [] [Text ''  '']]],
       Element ''w:p'' [] [Element ''w:r'' [] [Element ''w:t'' [] [Text '' World '']]]]]) \<and>
   parseString (toxml (Element ''w:document'' [] [Element ''w:body'' [] [
       Element ''w:p'' [] [
         Element ''w:del'' [(''w:id'', ''1''), (''w:author'', ''Claude'')] [
           Element ''w:r'' [] [Element ''w:delText'' [] [Text ''Hello'']]]],
       Element ''w:p'' [] [Element ''w:r'' [] [Element ''w:t'' [] [Text ''  '']]],
       Element ''w:p'' [] [Element ''w:r'' [] [Element ''w:t'' [] [Text '' World '']]]]])) \<noteq> None"
proof -
  have n: "node_at [hello_dom] [0, 0, 0] =
      Some (Element ''w:p'' [] [Element ''w:r'' [] [Element ''w:t'' [] [Text ''Hello'']]])"
    by (simp add: hello_dom_def)
  have e: "suggestDeletion hello_dom [0, 0, 0] ''Claude'' ''1'' =
     Inr (Element ''w:document'' [] [Element ''w:body'' [] [
       Element ''w:p'' [] [
         Element ''w:del'' [(''w:id'', ''1''), (''w:author'', ''Claude'')] [
           Element ''w:r'' [] [Element ''w:delText'' [] [Text ''Hello'']]]],
       Element ''w:p'' [] [Element ''w:r'' [] [Element ''w:t'' [] [Text ''  '']]],
       Element ''w:p'' [] [Element ''w:r'' [] [Element ''w:t'' [] [Text '' World '']]]]])"
    by (simp add: suggestDeletion_def hello_dom_def)
  from suggested_deletion_keeps_node [OF n hello_unique, of "''Claude''" "''1''"] e
  show ?thesis by auto
qed

subsection \<open>C4\<close>



subsection \<open>C5\<close>

text \<open>
  C5.  When the line-based lookup yields no node, the location is a zero-based index into
  the \<^verbatim>\<open>w:p\<close> elements in document order.  The list \<^verbatim>\<open>getElementsByTagName("w:p")\<close>
  is strictly increasing in document order (no repeats) and holds exactly the \<^verbatim>\<open>w:p\<close>
  elements of the tree (no gaps).  For \<open>0 \<le> location < count\<close> each operation makes its
  edit on the \<open>location\<close>-th entry of that list; for any other location, \<open>count\<close>
  included, it returns the not-found result object and raises nothing.
\<close>

theorem fallback_is_document_order_index:
  assumes "unpack_document env fs docx_path = Inr dir"
    and "Document env dir (Some author) None = Inr doc"
    and "getitem env doc ''word/document.xml'' = Inr (doc', body)"
    and "get_node env body ''w:p'' location = Inr None"
    and "paragraphs = getElementsByTagName body ''w:p''"
    and "calls = [Unpack docx_path, NewDocument, GetItem ''word/document.xml'',
                  GetNode ''w:p'' location]"
    and "failure = JObject [(''success'', JBool False),
            (''error'', JStr (''Could not find paragraph at location '' @ str_int location))]"
  shows "sorted_wrt (<) (map fst paragraphs) \<and>
         (\<forall>p e. (p, e) \<in> set paragraphs \<longleftrightarrow>
                  node_at [body] p = Some e \<and> tag_matches ''w:p'' e) \<and>
         (if 0 \<le> location \<and> location < int (length paragraphs)
          then (let n = fst (paragraphs ! nat location) in
            (\<exists>rest. fst (add_comment env fs docx_path location content author) =
                calls @ AddComment n n content # rest) \<and>
            (\<exists>rest. fst (suggest_insertion env fs docx_path location content author) =
                calls @ SuggestInsertion n content # rest) \<and>
            (\<exists>rest. fst (suggest_deletion env fs docx_path location author) =
                calls @ SuggestDeletion n # rest))
          else
            add_comment env fs docx_path location content author = (calls, Inr (failure, fs)) \<and>
            suggest_insertion env fs docx_path location content author =
              (calls, Inr (failure, fs)) \<and>
            suggest_deletion env fs docx_path location author = (calls, Inr (failure, fs)))"
proof -
  have order: "sorted_wrt (<) (map fst paragraphs)"
    unfolding assms(5) by (rule getElementsByTagName_sorted)
  have complete: "\<forall>p e. (p, e) \<in> set paragraphs \<longleftrightarrow>
      node_at [body] p = Some e \<and> tag_matches ''w:p'' e"
    unfolding assms(5) by (simp add: getElementsByTagName_complete)
  show ?thesis
  proof (cases "0 \<le> location \<and> location < int (length paragraphs)")
    case True
    then have found:
      "(if 0 \<le> location \<and> location < int (length (getElementsByTagName body ''w:p''))
        then Some (fst (getElementsByTagName body ''w:p'' ! nat location)) else None)
         = Some (fst (paragraphs ! nat location))"
      unfolding assms(5) by simp
    have "\<exists>rest. fst (add_comment env fs docx_path location content author) =
            calls @ AddComment (fst (paragraphs ! nat location))
                      (fst (paragraphs ! nat location)) content # rest"
      using assms(1-4) found
      by (simp add: add_comment_def step_Inr Let_def step_calls assms(6))
    moreover have "\<exists>rest. fst (suggest_insertion env fs docx_path location content author) =
            calls @ SuggestInsertion (fst (paragraphs ! nat location)) content # rest"
      using assms(1-4) found
      by (simp add: suggest_insertion_def step_Inr Let_def step_calls assms(6))
    moreover have "\<exists>rest. fst (suggest_deletion env fs docx_path location author) =
            calls @ SuggestDeletion (fst (paragraphs ! nat location)) # rest"
      using assms(1-4) found
      by (simp add: suggest_deletion_def step_Inr Let_def step_calls assms(6))
    ultimately show ?thesis using order complete True by (simp add: Let_def)
  next
    case False
    then have "\<not> (0 \<le> location \<and> location < int (length (getElementsByTagName body ''w:p'')))"
      unfolding assms(5) .
    from location_not_found [OF assms(1-4) this assms(6,7)]
    show ?thesis using order complete False by (simp add: Let_def)
  qed
qed

theorem fallback_is_document_order_index_witness:
  "(\<exists>rest. fst (add_comment small_env small_files ''report.docx'' 2 ''Check this'' ''Claude'') =
      [Unpack ''report.docx'', NewDocument, GetItem ''word/document.xml'', GetNode ''w:p'' 2,
       AddComment [0, 0, 2] [0, 0, 2] ''Check this''] @ rest) \<and>
   (\<exists>rest. fst (suggest_deletion small_env small_files ''report.docx'' 0 ''Claude'') =
      [Unpack ''report.docx'', NewDocument, GetItem ''word/document.xml'', GetNode ''w:p'' 0,
       SuggestDeletion [0, 0, 0]] @ rest) \<and>
   suggest_insertion small_env small_files ''report.docx'' 3 ''Hello'' ''Claude'' =
     ([Unpack ''report.docx'', NewDocument, GetItem ''word/document.xml'', GetNode ''w:p'' 3],
      Inr (JObject [(''success'', JBool False),
                    (''error'', JStr ''Could not find paragraph at location 3'')], small_files))"
proof -
  have a: "\<exists>rest. fst (add_comment small_env small_files ''report.docx'' 2 ''Check this'' ''Claude'') =
      [Unpack ''report.docx'', NewDocument, GetItem ''word/document.xml'', GetNode ''w:p'' 2,
       AddComment [0, 0, 2] [0, 0, 2] ''Check this''] @ rest"
    using fallback_is_document_order_index
      [where location = 2 and author = "''Claude''" and content = "''Check this''",
        OF small_unpack small_document small_getitem small_get_node
          small_paragraphs [symmetric] refl refl]
    by (simp add: Let_def)
  have b: "\<exists>rest. fst (suggest_deletion small_env small_files ''report.docx'' 0 ''Claude'') =
      [Unpack ''report.docx'', NewDocument, GetItem ''word/document.xml'', GetNode ''w:p'' 0,
       SuggestDeletion [0, 0, 0]] @ rest"
    using fallback_is_document_order_index
      [where location = 0 and author = "''Claude''",
        OF small_unpack small_document small_getitem small_get_node
          small_paragraphs [symmetric] refl refl]
    by (simp add: Let_def)
  have c: "suggest_insertion small_env small_files ''report.docx'' 3 ''Hello'' ''Claude'' =
     ([Unpack ''report.docx'', NewDocument, GetItem ''word/document.xml'', GetNode ''w:p'' 3],
      Inr (JObject [(''success'', JBool False),
                    (''error'', JStr ''Could not find paragraph at location 3'')], small_files))"
    using fallback_is_document_order_index
      [where location = 3 and author = "''Claude''" and content = "''Hello''",
        OF small_unpack small_document small_getitem small_get_node
          small_paragraphs [symmetric] refl refl] str_int_3
    by (simp add: Let_def)
  show ?thesis using a b c by blast
qed

subsection \<open>C6\<close>

text \<open>
  C6.  As stated, the statement does not hold for \<^verbatim>\<open>validate_document\<close> of
  \<^verbatim>\<open>word_cli.py\<close>: it looks for the two mandatory files and parses nothing.  A directory that has both files,
  with a body part that does not parse, is reported valid.
\<close>

theorem cli_validate_accepts_malformed_part:
  "get small_env ([''word/document.xml'' \<mapsto> ''<w:document><w:body>'',
                   ''[Content_Types].xml'' \<mapsto> ''<Types/>''], None) ''word/document.xml'' =
     Inl (Raised MalformedXml ''not well-formed (invalid token)'') \<and>
   validate_document_cli small_env
     [''word/document.xml'' \<mapsto> ''<w:document><w:body>'',
      ''[Content_Types].xml'' \<mapsto> ''<Types/>''] =
     JObject [(''success'', JBool True), (''valid'', JBool True),
              (''errors'', JList []), (''warnings'', JList [])]"
  by (simp add: validate_document_cli_def try_except_def small_env_def registry_get_def
      parse_part_def known_parts_def hello_text_def tracked_text_def break_text_def)

text \<open>
  C6, amended.  \<^verbatim>\<open>validate_document\<close> of \<^verbatim>\<open>word_cli.py\<close> checks the presence of
  \<^verbatim>\<open>word/document.xml\<close> and \<^verbatim>\<open>[Content_Types].xml\<close> only: \<^verbatim>\<open>valid\<close> is true exactly
  when \<^verbatim>\<open>Document\<close> raises nothing and both files are present, the error list is empty
  exactly then, and the result does not depend on how a part loads or parses.
  \<^verbatim>\<open>validate_document\<close> of \<^verbatim>\<open>word_ops.py\<close> returns the verdict and the errors of the
  schema validator it calls.
\<close>

theorem cli_validate_checks_presence_only:
  "(let present = (\<not> isl (Document env d None None) \<and>
                   d ''word/document.xml'' \<noteq> None \<and> d ''[Content_Types].xml'' \<noteq> None)
    in json_get (validate_document_cli env d) ''valid'' = Some (JBool present) \<and>
       (\<exists>messages. json_get (validate_document_cli env d) ''errors'' =
                      Some (JList (map JStr messages)) \<and>
                    (messages = []) = present)) \<and>
   validate_document_cli (env\<lparr>get := g, getitem := g'\<rparr>) d = validate_document_cli env d \<and>
   (unpack_document env fs docx_path = Inr dir \<and> validator_validate env dir = Inr result \<longrightarrow>
      (\<exists>ws. snd (validate_document env fs docx_path) =
         Inr (JObject [(''success'', JBool (valid result)),
                       (''valid'', JBool (valid result)),
                       (''errors'', JList (map JStr (errors result))),
                       (''warnings'', JList (map JStr ws))], fs)))"
proof -
  have a: "(let present = (\<not> isl (Document env d None None) \<and>
                   d ''word/document.xml'' \<noteq> None \<and> d ''[Content_Types].xml'' \<noteq> None)
    in json_get (validate_document_cli env d) ''valid'' = Some (JBool present) \<and>
       (\<exists>messages. json_get (validate_document_cli env d) ''errors'' =
                      Some (JList (map JStr messages)) \<and>
                    (messages = []) = present))"
  proof (cases "Document env d None None")
    case (Inl e)
    have v: "validate_document_cli env d =
        JObject [(''success'', JBool False), (''valid'', JBool False),
                 (''errors'', JList [JStr (str_error e)])]"
      using Inl by (simp add: validate_document_cli_def try_except_def)
    have "\<exists>messages. JList [JStr (str_error e)] = JList (map JStr messages) \<and> messages \<noteq> []"
      by (rule exI [of _ "[str_error e]"]) simp
    then show ?thesis using Inl by (simp add: v Let_def del: list.map)
  next
    case (Inr doc)
    show ?thesis
    proof (cases "d ''word/document.xml'' \<noteq> None \<and> d ''[Content_Types].xml'' \<noteq> None")
      case True
      have v: "validate_document_cli env d =
          JObject [(''success'', JBool True), (''valid'', JBool True),
                   (''errors'', JList []), (''warnings'', JList [])]"
        using Inr True by (auto simp: validate_document_cli_def try_except_def Let_def)
      show ?thesis using Inr True by (simp add: v Let_def)
    next
      case False
      define m where "m = ''Missing required files: '' @ join '', ''
         (filter (\<lambda>file. d file = None) [''word/document.xml'', ''[Content_Types].xml''])"
      have missing: "filter (\<lambda>file. d file = None) [''word/document.xml'', ''[Content_Types].xml''] \<noteq> []"
        using False by auto
      have v: "validate_document_cli env d =
          JObject [(''success'', JBool False), (''valid'', JBool False),
                   (''errors'', JList [JStr m])]"
        using Inr missing unfolding validate_document_cli_def try_except_def Let_def m_def
        by (simp only: sum.case if_True not_False_eq_True)
      have e: "json_get (validate_document_cli env d) ''errors'' = Some (JList (map JStr [m]))"
        unfolding v by simp
      have p: "\<not> (\<not> isl (Document env d None None) \<and>
                   d ''word/document.xml'' \<noteq> None \<and> d ''[Content_Types].xml'' \<noteq> None)"
        using False by blast
      have "json_get (validate_document_cli env d) ''valid'' = Some (JBool False)"
        unfolding v by simp
      moreover have "\<exists>messages. json_get (validate_document_cli env d) ''errors'' =
                      Some (JList (map JStr messages)) \<and> (messages = []) = False"
        using e by blast
      ultimately show ?thesis using p unfolding Let_def by presburger
    qed
  qed
  have b: "validate_document_cli (env\<lparr>get := g, getitem := g'\<rparr>) d = validate_document_cli env d"
    by (simp add: validate_document_cli_def)
  have c: "unpack_document env fs docx_path = Inr dir \<and> validator_validate env dir = Inr result \<longrightarrow>
      (\<exists>ws. snd (validate_document env fs docx_path) =
         Inr (JObject [(''success'', JBool (valid result)),
                       (''valid'', JBool (valid result)),
                       (''errors'', JList (map JStr (errors result))),
                       (''warnings'', JList (map JStr ws))], fs))"
    by (auto simp: validate_document_def step_Inr returns_def)
  show ?thesis using a b c by blast
qed

theorem cli_validate_checks_presence_only_witness:
  "\<exists>ws. snd (validate_document small_env [''draft.docx'' \<mapsto> ''<w:document><w:body>'']
             ''draft.docx'') =
     Inr (JObject [(''success'', JBool False), (''valid'', JBool False),
                   (''errors'', JList [JStr ''word/document.xml: not well-formed (invalid token)'']),
                   (''warnings'', JList (map JStr ws))],
          [''draft.docx'' \<mapsto> ''<w:document><w:body>''])"
proof -
  have u: "unpack_document small_env [''draft.docx'' \<mapsto> ''<w:document><w:body>''] ''draft.docx'' =
      Inr [''[Content_Types].xml'' \<mapsto> ''<Types/>'',
           ''word/document.xml'' \<mapsto> ''<w:document><w:body>'']"
    by (simp add: small_env_def archive_unpack_def)
  have v: "validator_validate small_env
      [''[Content_Types].xml'' \<mapsto> ''<Types/>'',
       ''word/document.xml'' \<mapsto> ''<w:document><w:body>''] =
      Inr \<lparr>valid = False,
           errors = [''word/document.xml: not well-formed (invalid token)''],
           warnings = None\<rparr>"
    by (simp add: small_env_def schema_validate_def parse_part_def known_parts_def
        hello_text_def tracked_text_def break_text_def)
  from cli_validate_checks_presence_only
    [where env = small_env and fs = "[''draft.docx'' \<mapsto> ''<w:document><w:body>'']"
       and docx_path = "''draft.docx''"
       and dir = "[''[Content_Types].xml'' \<mapsto> ''<Types/>'',
                   ''word/document.xml'' \<mapsto> ''<w:document><w:body>'']"
       and result = "\<lparr>valid = False,
           errors = [''word/document.xml: not well-formed (invalid token)''],
           warnings = None\<rparr>"] u v
  show ?thesis by simp
qed

subsection \<open>C7\<close>

text \<open>
  C7.  Every outcome of a validation is to carry \<^verbatim>\<open>valid\<close>, \<^verbatim>\<open>errors\<close> and
  \<^verbatim>\<open>warnings\<close>.  \<^verbatim>\<open>validate_document\<close> of \<^verbatim>\<open>word_cli.py\<close> on a directory without
  \<^verbatim>\<open>[Content_Types].xml\<close> does not: the object it returns has \<^verbatim>\<open>valid\<close> false and
  no \<^verbatim>\<open>warnings\<close> field, whatever \<^verbatim>\<open>Document\<close> does.
\<close>

theorem validate_cli_failure_has_no_warnings:
  "json_get (validate_document_cli env [''word/document.xml'' \<mapsto> hello_text]) ''valid'' =
     Some (JBool False) \<and>
   json_get (validate_document_cli env [''word/document.xml'' \<mapsto> hello_text]) ''warnings'' = None"
  by (cases "Document env [''word/document.xml'' \<mapsto> hello_text] None None")
     (simp_all add: validate_document_cli_def try_except_def Let_def)

subsection \<open>C8\<close>




subsection \<open>C9\<close>

text \<open>
  C9.  \<^verbatim>\<open>add_comment\<close> calls \<^verbatim>\<open>doc.add_comment\<close> with the located node as start and
  as end of the range: every such call has equal start and end, so the range check of the
  specification (an end node before the start node) cannot fail, and the range is one node.
  That node is a \<^verbatim>\<open>w:p\<close> element of the body part, provided the line-based lookup,
  asked for tag \<^verbatim>\<open>w:p\<close>, gives only such elements.
\<close>

theorem add_comment_range_is_one_paragraph:
  assumes "AddComment start finish content' \<in>
             set (fst (add_comment env fs docx_path location content author))"
    and "\<forall>body n. get_node env body ''w:p'' location = Inr (Some n) \<longrightarrow>
           (\<exists>e. node_at [body] n = Some e \<and> tag_matches ''w:p'' e)"
  shows "start = finish \<and> range_check start finish = Inr () \<and>
         (\<exists>dir doc doc' body p.
            unpack_document env fs docx_path = Inr dir \<and>
            Document env dir (Some author) None = Inr doc \<and>
            getitem env doc ''word/document.xml'' = Inr (doc', body) \<and>
            node_at [body] start = Some p \<and> tagName p = Some ''w:p'')"
proof -
  obtain dir where 1: "unpack_document env fs docx_path = Inr dir"
    using assms(1) by (cases "unpack_document env fs docx_path") (auto simp: add_comment_def step_Inl)
  obtain doc where 2: "Document env dir (Some author) None = Inr doc"
    using assms(1) 1 by (cases "Document env dir (Some author) None") (auto simp: add_comment_def step_Inl step_Inr)
  obtain doc' body where 3: "getitem env doc ''word/document.xml'' = Inr (doc', body)"
    using assms(1) 1 2 by (cases "getitem env doc ''word/document.xml''") (auto simp: add_comment_def step_Inl step_Inr)
  obtain found where 4: "get_node env body ''w:p'' location = Inr found"
    using assms(1) 1 2 3 by (cases "get_node env body ''w:p'' location") (auto simp: add_comment_def step_Inl step_Inr)
  let ?ps = "getElementsByTagName body ''w:p''"
  let ?node = "(if found = None then
          if 0 \<le> location \<and> location < int (length ?ps)
          then Some (fst (?ps ! nat location)) else found
        else found)"
  have node_eq: "(if found = None then
          let paragraphs = getElementsByTagName body ''w:p'' in
          if 0 \<le> location \<and> location < int (length paragraphs)
          then Some (fst (paragraphs ! nat location)) else found
        else found) = ?node"
    by (simp add: Let_def)
  obtain n where n: "?node = Some n" "start = n" "finish = n"
  proof (cases ?node)
    case None
    have "fst (add_comment env fs docx_path location content author) =
            [Unpack docx_path, NewDocument, GetItem ''word/document.xml'', GetNode ''w:p'' location]"
      using 1 2 3 4 None unfolding add_comment_def
      by (simp only: step_Inr case_prod_conv node_eq Let_def option.case returns_def fst_conv)
    with assms(1) show ?thesis by simp
  next
    case (Some n)
    have "fst (add_comment env fs docx_path location content author) =
            [Unpack docx_path, NewDocument, GetItem ''word/document.xml'', GetNode ''w:p'' location,
             AddComment n n content] @
            (case doc_add_comment env doc' n n content of Inl e \<Rightarrow> []
             | Inr d \<Rightarrow> Save # (case save env d of Inl e \<Rightarrow> []
                 | Inr u \<Rightarrow> Pack docx_path #
                     (case pack_document env u of Inl e \<Rightarrow> [] | Inr a \<Rightarrow> [])))"
      using 1 2 3 4 Some unfolding add_comment_def
      by (simp only: step_Inr case_prod_conv node_eq Let_def option.case fst_conv)
         (simp add: step_calls returns_def split: sum.splits)
    with assms(1) have "start = n \<and> finish = n"
      by (auto split: sum.splits)
    with Some that show ?thesis by blast
  qed
  have "\<exists>e. node_at [body] n = Some e \<and> tag_matches ''w:p'' e"
  proof (cases found)
    case None
    with n(1) have "0 \<le> location \<and> location < int (length ?ps)" "n = fst (?ps ! nat location)"
      by (auto split: if_splits)
    then show ?thesis using nth_paragraph [of "nat location" body "''w:p''"] by auto
  next
    case (Some m)
    with n(1) have "m = n" by simp
    with Some 4 assms(2) show ?thesis by blast
  qed
  then obtain p where "node_at [body] start = Some p" "tagName p = Some ''w:p''"
    using n(2) tag_matches_w_p by blast
  then show ?thesis using 1 2 3 n(2,3) by (auto simp: range_check_def)
qed

theorem add_comment_range_is_one_paragraph_witness:
  "range_check [0, 0, 2] [0, 0, 2] = Inr () \<and>
   (\<exists>dir doc doc' body p.
      unpack_document small_env small_files ''report.docx'' = Inr dir \<and>
      Document small_env dir (Some ''Claude'') None = Inr doc \<and>
      getitem small_env doc ''word/document.xml'' = Inr (doc', body) \<and>
      node_at [body] [0, 0, 2] = Some p \<and> tagName p = Some ''w:p'')"
proof -
  have "AddComment [0, 0, 2] [0, 0, 2] ''Check this'' \<in>
      set (fst (add_comment small_env small_files ''report.docx'' 2 ''Check this'' ''Claude''))"
    by (simp add: small_add_comment)
  from add_comment_range_is_one_paragraph [OF this] small_get_node
  show ?thesis by simp
qed

subsection \<open>C10\<close>

text \<open>
  C10.  As stated, for every unpacked document, the statement does not hold: where a
  \<^verbatim>\<open>w:t\<close> has an element as first child, the join raises \<^verbatim>\<open>TypeError\<close> and \<^verbatim>\<open>read_document\<close> returns
  the failure object, with no entry for the first paragraph, whose text is
  \<^verbatim>\<open>Hello\<close>.
\<close>

theorem read_document_fails_on_element_in_text:
  "stated_text (Element ''w:p'' [] [Element ''w:r'' [] [Element ''w:t'' [] [Text ''Hello'']]]) =
     ''Hello'' \<and>
   read_document small_env [''word/document.xml'' \<mapsto> break_text] =
     JObject [(''success'', JBool False),
              (''error'', JStr ''sequence item 0: expected str instance, NoneType found'')]"
  by (simp add: read_document_def try_except_def small_env_def registry_get_def parse_part_def
      known_parts_def hello_text_def tracked_text_def break_text_def break_paragraphs
      text_of_paragraph_def List.map_filter_simps str_nat.simps digit_char_def stated_text_def)

text \<open>
  C10, amended.  For an unpacked document whose body part loads: if in every paragraph
  the first child of each \<^verbatim>\<open>w:t\<close>, where it has one, is character data,
  \<^verbatim>\<open>read_document\<close> returns \<^verbatim>\<open>success\<close> true and, for exactly the paragraphs whose
  text is not empty after stripping, in document order, the entry with the index of the
  paragraph among all \<^verbatim>\<open>w:p\<close> elements and the stripped text; otherwise it returns
  \<^verbatim>\<open>success\<close> false with the message of the \<^verbatim>\<open>TypeError\<close>.
\<close>

theorem read_document_content:
  assumes "Document env d None None = Inr doc"
    and "get env doc ''word/document.xml'' = Inr (doc', body)"
  shows "if list_all plain_paragraph (map snd (getElementsByTagName body ''w:p''))
         then read_document env d =
                JObject [(''success'', JBool True), (''content'', JList (stated_content body))]
         else (\<exists>j. read_document env d =
                JObject [(''success'', JBool False),
                         (''error'', JStr (''sequence item '' @ str_nat j @
                            '': expected str instance, NoneType found''))])"
proof (cases "list_all plain_paragraph (map snd (getElementsByTagName body ''w:p''))")
  case True
  then show ?thesis using assms read_plain_paragraphs [OF True, of 0]
    by (simp add: read_document_def try_except_def stated_content_def)
next
  case False
  then obtain j where "read_paragraphs (enumerate 0 (map snd (getElementsByTagName body ''w:p''))) =
      Inl (Raised TypeError
         (''sequence item '' @ str_nat j @ '': expected str instance, NoneType found''))"
    using read_other_paragraphs by blast
  then have "read_document env d =
      JObject [(''success'', JBool False),
               (''error'', JStr (''sequence item '' @ str_nat j @
                  '': expected str instance, NoneType found''))]"
    using assms by (simp add: read_document_def try_except_def)
  then show ?thesis using False by (simp only: if_False) blast
qed

theorem read_document_content_witness:
  "read_document small_env [''word/document.xml'' \<mapsto> hello_text] =
     JObject [(''success'', JBool True),
              (''content'', JList [
                 JObject [(''index'', JInt 0), (''text'', JStr ''Hello'')],
                 JObject [(''index'', JInt 2), (''text'', JStr ''World'')]])]"
proof -
  have g: "get small_env ([''word/document.xml'' \<mapsto> hello_text], None) ''word/document.xml'' =
      Inr (([''word/document.xml'' \<mapsto> hello_text], Some hello_dom), hello_dom)"
    by (simp add: small_env_def registry_get_def parse_part_def known_parts_def)
  have p: "list_all plain_paragraph (map snd (getElementsByTagName hello_dom ''w:p''))"
    by (simp add: small_paragraphs plain_paragraph_def)
  have c: "stated_content hello_dom =
      [JObject [(''index'', JInt 0), (''text'', JStr ''Hello'')],
       JObject [(''index'', JInt 2), (''text'', JStr ''World'')]]"
    by (simp add: stated_content_def small_paragraphs stated_text_def hello_strips enumerate_eq_zip upt_rec)
  from read_document_content [OF small_document g] p c
  show ?thesis by simp
qed

end
